theory Spec2Isabelle
  imports Complex_Main
begin

section \<open>JavaScript values\<close>

text \<open>
  The plugin handles \<open>history.state\<close> values, which are arbitrary structured-cloneable
  JavaScript values. Finite numbers are modelled as reals (rounding of doubles is not
  modelled); the three non-finite numbers are constructors of their own, since
  \<open>Number.isFinite\<close> tells them apart. An object is a finite map from property names to
  values.
\<close>

datatype jsval =
    JUndefined
  | JNull
  | JBool bool
  | JNum real
  | JNaN
  | JPosInfinity
  | JNegInfinity
  | JStr string
  | JObj "string \<Rightarrow> jsval option"

datatype error = TypeError | DOMException string

text \<open>JavaScript truthiness, as used by \<open>||\<close>, \<open>&&\<close> and \<open>if\<close>.\<close>

fun truthy :: "jsval \<Rightarrow> bool" where
  "truthy JUndefined = False"
| "truthy JNull = False"
| "truthy (JBool b) = b"
| "truthy (JNum r) = (r \<noteq> 0)"
| "truthy JNaN = False"
| "truthy JPosInfinity = True"
| "truthy JNegInfinity = True"
| "truthy (JStr s) = (s \<noteq> [])"
| "truthy (JObj m) = True"

definition js_or :: "jsval \<Rightarrow> jsval \<Rightarrow> jsval" where
  "js_or a b = (if truthy a then a else b)"

fun Number_isFinite :: "jsval \<Rightarrow> bool" where
  "Number_isFinite (JNum r) = True"
| "Number_isFinite v = False"

text \<open>Value of a number known to be finite (the callers check \<open>Number.isFinite\<close> first).\<close>

fun numberValue :: "jsval \<Rightarrow> real" where
  "numberValue (JNum r) = r"
| "numberValue v = 0"

text \<open>Decimal property names of the characters of a string.\<close>

fun digits :: "nat \<Rightarrow> string" where
  "digits n =
     (if n < 10 then [char_of (48 + n)]
      else digits (n div 10) @ [char_of (48 + n mod 10)])"

text \<open>
  The own enumerable string-keyed properties of a value: what \<open>Object.assign\<close> copies
  from a source. \<open>null\<close>, \<open>undefined\<close>, booleans and numbers have none; a string has
  one per character index.
\<close>

fun ownProps :: "jsval \<Rightarrow> (string \<Rightarrow> jsval option)" where
  "ownProps (JObj m) = m"
| "ownProps (JStr s) = map_of (zip (map digits [0..<length s]) (map (\<lambda>c. JStr [c]) s))"
| "ownProps v = Map.empty"

definition Object_assign :: "(string \<Rightarrow> jsval option) \<Rightarrow> jsval list \<Rightarrow> jsval" where
  "Object_assign target sources = JObj (foldl (\<lambda>t s. t ++ ownProps s) target sources)"

text \<open>
  Reading a property \<open>v.k\<close>. On \<open>null\<close> and \<open>undefined\<close> the read throws a TypeError;
  on every other value a missing property reads as \<open>undefined\<close>. Only own enumerable
  properties are modelled (no prototype chain).
\<close>

definition lookupProp :: "jsval \<Rightarrow> string \<Rightarrow> jsval" where
  "lookupProp v k = (case ownProps v k of Some x \<Rightarrow> x | None \<Rightarrow> JUndefined)"

fun getProp :: "jsval \<Rightarrow> string \<Rightarrow> error + jsval" where
  "getProp JNull k = Inl TypeError"
| "getProp JUndefined k = Inl TypeError"
| "getProp v k = Inr (lookupProp v k)"

section \<open>Module configuration\<close>

text \<open>
  \<open>ScrollRestorationOptions\<close> of \<open>types.ts\<close>: every field is optional. Millisecond
  quantities are modelled as integers.
\<close>

record ScrollRestorationOptions =
  scrollRestorationTimeoutMs :: "int option"
  tryToScrollIntervalMs :: "int option"
  debug :: "bool option"

text \<open>\<open>useRuntimeConfig().public.scrollRestoration || {}\<close>: an object is always truthy.\<close>

definition config :: "ScrollRestorationOptions option \<Rightarrow> ScrollRestorationOptions" where
  "config rc =
     (case rc of
        Some c \<Rightarrow> c
      | None \<Rightarrow> \<lparr>scrollRestorationTimeoutMs = None, tryToScrollIntervalMs = None, debug = None\<rparr>)"

text \<open>\<open>v || d\<close> on an optional number: \<open>undefined\<close> and \<open>0\<close> are falsy.\<close>

definition or_number :: "int option \<Rightarrow> int \<Rightarrow> int" where
  "or_number v d = (case v of None \<Rightarrow> d | Some n \<Rightarrow> if n = 0 then d else n)"

definition SCROLL_RESTORATION_TIMEOUT_MS :: "ScrollRestorationOptions option \<Rightarrow> int" where
  "SCROLL_RESTORATION_TIMEOUT_MS rc = or_number (scrollRestorationTimeoutMs (config rc)) 3000"

definition TRY_TO_SCROLL_INTERVAL_MS :: "ScrollRestorationOptions option \<Rightarrow> int" where
  "TRY_TO_SCROLL_INTERVAL_MS rc = or_number (tryToScrollIntervalMs (config rc)) 50"

definition DEBUG :: "ScrollRestorationOptions option \<Rightarrow> bool" where
  "DEBUG rc = (case debug (config rc) of None \<Rightarrow> False | Some b \<Rightarrow> b)"

section \<open>The browser and the plugin state\<close>

text \<open>The geometry the scheduler reads from \<open>document.body\<close>, \<open>document.documentElement\<close>
  and \<open>window\<close>.\<close>

record dom =
  bodyScrollWidth :: int
  bodyOffsetWidth :: int
  htmlClientWidth :: int
  htmlScrollWidth :: int
  htmlOffsetWidth :: int
  bodyScrollHeight :: int
  bodyOffsetHeight :: int
  htmlClientHeight :: int
  htmlScrollHeight :: int
  htmlOffsetHeight :: int
  innerWidth :: int
  innerHeight :: int

text \<open>
  What the plugin does not control: the document geometry at each instant (content
  loads over time), the two widths the scrollbar probe measures, whether a native
  history primitive throws on given arguments, and the runtime configuration.
\<close>

record env =
  document :: "int \<Rightarrow> dom"
  widthNoScroll :: int
  widthWithScroll :: int
  nativeReplaceThrows :: "jsval \<Rightarrow> jsval list \<Rightarrow> error option"
  nativePushThrows :: "jsval list \<Rightarrow> error option"
  runtimeConfig :: "ScrollRestorationOptions option"

record ScrollTarget =
  x :: real
  y :: real
  latestTimeToTry :: int

text \<open>
  A pending timer runs one of the two closures the plugin passes to \<open>setTimeout\<close>:
  the deferred start of \<open>onPageFinish\<close>, which captured \<open>state\<close>, or the retry of
  \<open>tryToScrollTo\<close>, which captured \<open>scrollTarget\<close>.
\<close>

datatype task = Begin jsval | Poll ScrollTarget

datatype timer = Timer (timerId: nat) (due: int) (job: task)

datatype nativeCall =
    NativeReplaceState jsval "jsval list"
  | NativePushState "jsval list"

record world =
  now :: int
  timers :: "timer list"
  nextTimerId :: nat
  timeoutHandle :: "nat option"
  scrollBarWidth :: int
  scrollCalls :: "(real \<times> real) list"
  nativeCalls :: "nativeCall list"
  poppedState :: jsval
  isMounted :: bool
  historyState :: jsval
  scrollX :: real
  scrollY :: real

section \<open>Navigation interceptor\<close>

text \<open>
  The native primitives: the call is recorded; it either throws, or installs the state
  as \<open>history.state\<close>.
\<close>

definition originalReplaceState ::
  "env \<Rightarrow> world \<Rightarrow> jsval \<Rightarrow> jsval list \<Rightarrow> error option \<times> world" where
  "originalReplaceState e w state otherArgs =
     (let w1 = w\<lparr>nativeCalls := nativeCalls w @ [NativeReplaceState state otherArgs]\<rparr>
      in case nativeReplaceThrows e state otherArgs of
           Some err \<Rightarrow> (Some err, w1)
         | None \<Rightarrow> (None, w1\<lparr>historyState := state\<rparr>))"

definition originalPushState ::
  "env \<Rightarrow> world \<Rightarrow> jsval list \<Rightarrow> error option \<times> world" where
  "originalPushState e w args =
     (let w1 = w\<lparr>nativeCalls := nativeCalls w @ [NativePushState args]\<rparr>
      in case nativePushThrows e args of
           Some err \<Rightarrow> (Some err, w1)
         | None \<Rightarrow> (None, w1\<lparr>historyState := (case args of [] \<Rightarrow> JUndefined | a # _ \<Rightarrow> a)\<rparr>))"

text \<open>The wrapper installed as \<open>window.history.replaceState\<close>.\<close>

definition replaceState ::
  "env \<Rightarrow> world \<Rightarrow> jsval \<Rightarrow> jsval list \<Rightarrow> error option \<times> world" where
  "replaceState e w state otherArgs =
     (if isMounted w then
        originalReplaceState e w
          (Object_assign Map.empty
             [state, JObj [''__scrollX'' \<mapsto> JNum (scrollX w), ''__scrollY'' \<mapsto> JNum (scrollY w)]])
          otherArgs
      else
        (case getProp (historyState w) ''__scrollX'' of
           Inl err \<Rightarrow> (Some err, w)
         | Inr sx \<Rightarrow>
             (case getProp (historyState w) ''__scrollY'' of
                Inl err \<Rightarrow> (Some err, w)
              | Inr sy \<Rightarrow>
                  originalReplaceState e w
                    (Object_assign Map.empty
                       [state, JObj [''__scrollX'' \<mapsto> sx, ''__scrollY'' \<mapsto> sy]])
                    otherArgs)))"

text \<open>The wrapper installed as \<open>window.history.pushState\<close>.\<close>

definition pushState :: "env \<Rightarrow> world \<Rightarrow> jsval list \<Rightarrow> error option \<times> world" where
  "pushState e w args =
     (case replaceState e w (historyState w) [JStr []] of
        (Some err, w1) \<Rightarrow> (Some err, w1)
      | (None, w1) \<Rightarrow> originalPushState e w1 args)"

section \<open>Lifecycle coordinator\<close>

text \<open>
  The browser's timer queue. \<open>setTimeout\<close> appends a timer with a fresh handle, due
  after the delay (a negative delay counts as 0); \<open>clearTimeout\<close> removes the timer with
  the given handle, and does nothing for \<open>undefined\<close> or a handle that is no longer
  pending.
\<close>

definition setTimeout :: "world \<Rightarrow> task \<Rightarrow> int \<Rightarrow> nat \<times> world" where
  "setTimeout w f delay =
     (nextTimerId w,
      w\<lparr>timers := timers w @ [Timer (nextTimerId w) (now w + max 0 delay) f],
        nextTimerId := Suc (nextTimerId w)\<rparr>)"

definition clearTimeout :: "world \<Rightarrow> nat option \<Rightarrow> world" where
  "clearTimeout w h =
     (case h of
        None \<Rightarrow> w
      | Some i \<Rightarrow> w\<lparr>timers := filter (\<lambda>tm. timerId tm \<noteq> i) (timers w)\<rparr>)"

text \<open>
  \<open>window.scrollTo\<close>: the call is recorded. Where the viewport ends up is the browser's
  decision (it clamps), so \<open>scrollX\<close> and \<open>scrollY\<close> change only by the browser's own
  step below.
\<close>

definition window_scrollTo :: "world \<Rightarrow> real \<Rightarrow> real \<Rightarrow> world" where
  "window_scrollTo w a b = w\<lparr>scrollCalls := scrollCalls w @ [(a, b)]\<rparr>"

definition onAppMounted :: "world \<Rightarrow> world" where
  "onAppMounted w = w\<lparr>isMounted := True\<rparr>"

definition onPageFinish :: "env \<Rightarrow> world \<Rightarrow> world" where
  "onPageFinish e w =
     (let state = js_or (poppedState w) (historyState w);
          w1 = w\<lparr>poppedState := JNull\<rparr>
      in if truthy state \<and>
            Number_isFinite (lookupProp state ''__scrollX'') \<and>
            Number_isFinite (lookupProp state ''__scrollY'')
         then snd (setTimeout w1 (Begin state) 0)
         else window_scrollTo w1 0 0)"

definition onPopState :: "world \<Rightarrow> jsval \<Rightarrow> world" where
  "onPopState w event_state =
     (if truthy event_state \<and>
         Number_isFinite (lookupProp event_state ''__scrollX'') \<and>
         Number_isFinite (lookupProp event_state ''__scrollY'')
      then w\<lparr>poppedState := event_state\<rparr>
      else w)"

definition onBeforeUnload :: "env \<Rightarrow> world \<Rightarrow> error option \<times> world" where
  "onBeforeUnload e w = replaceState e w (historyState w) [JStr []]"

section \<open>Restoration scheduler\<close>

definition getScrollbarWidth :: "env \<Rightarrow> int" where
  "getScrollbarWidth e = widthNoScroll e - widthWithScroll e"

definition documentWidth :: "dom \<Rightarrow> int" where
  "documentWidth d =
     max (bodyScrollWidth d) (max (bodyOffsetWidth d)
       (max (htmlClientWidth d) (max (htmlScrollWidth d) (htmlOffsetWidth d))))"

definition documentHeight :: "dom \<Rightarrow> int" where
  "documentHeight d =
     max (bodyScrollHeight d) (max (bodyOffsetHeight d)
       (max (htmlClientHeight d) (max (htmlScrollHeight d) (htmlOffsetHeight d))))"

definition tryToScrollTo :: "env \<Rightarrow> world \<Rightarrow> ScrollTarget \<Rightarrow> world" where
  "tryToScrollTo e w scrollTarget =
     (let w1 = clearTimeout w (timeoutHandle w);
          d = document e (now w1);
          w2 = (if scrollBarWidth w1 = 0
                then w1\<lparr>scrollBarWidth := getScrollbarWidth e\<rparr> else w1)
      in if (real_of_int (documentWidth d + scrollBarWidth w2 - innerWidth d) \<ge> x scrollTarget \<and>
             real_of_int (documentHeight d + scrollBarWidth w2 - innerHeight d) \<ge> y scrollTarget) \<or>
            now w2 > latestTimeToTry scrollTarget
         then window_scrollTo w2 (x scrollTarget) (y scrollTarget)
         else (case setTimeout w2 (Poll scrollTarget) (TRY_TO_SCROLL_INTERVAL_MS (runtimeConfig e)) of
                 (h, w3) \<Rightarrow> w3\<lparr>timeoutHandle := Some h\<rparr>))"

text \<open>
  Running the closure of a timer. The deferred start builds its target when it runs:
  the coordinates of the captured state and the deadline counted from that instant.
\<close>

definition beginTarget :: "env \<Rightarrow> world \<Rightarrow> jsval \<Rightarrow> ScrollTarget" where
  "beginTarget e w state =
     \<lparr>x = numberValue (lookupProp state ''__scrollX''),
      y = numberValue (lookupProp state ''__scrollY''),
      latestTimeToTry = now w + SCROLL_RESTORATION_TIMEOUT_MS (runtimeConfig e)\<rparr>"

fun runTask :: "env \<Rightarrow> world \<Rightarrow> task \<Rightarrow> world" where
  "runTask e w (Begin state) = tryToScrollTo e w (beginTarget e w state)"
| "runTask e w (Poll scrollTarget) = tryToScrollTo e w scrollTarget"

text \<open>
  The event loop fires a pending timer: the timer leaves the queue, the clock stands at
  its due time (or later, if the loop was busy), and its closure runs.
\<close>

definition fire :: "env \<Rightarrow> world \<Rightarrow> timer \<Rightarrow> world" where
  "fire e w tm =
     runTask e (w\<lparr>timers := remove1 tm (timers w), now := max (now w) (due tm)\<rparr>) (job tm)"

text \<open>The timer the loop fires next: the earliest due, the oldest among equals.\<close>

fun earliest :: "timer list \<Rightarrow> timer option" where
  "earliest [] = None"
| "earliest (t # ts) =
     (case earliest ts of
        None \<Rightarrow> Some t
      | Some u \<Rightarrow> if due t \<le> due u then Some t else Some u)"

definition fireNext :: "env \<Rightarrow> world \<Rightarrow> world" where
  "fireNext e w = (case earliest (timers w) of None \<Rightarrow> w | Some tm \<Rightarrow> fire e w tm)"

text \<open>
  With no other event arriving, the loop fires timers until the queue is empty. The
  fuel bounds the number of timers fired; \<open>None\<close> means the queue was not yet empty.
\<close>

fun runEventLoop :: "env \<Rightarrow> nat \<Rightarrow> world \<Rightarrow> world option" where
  "runEventLoop e 0 w = (if timers w = [] then Some w else None)"
| "runEventLoop e (Suc n) w =
     (if timers w = [] then Some w else runEventLoop e n (fireNext e w))"

text \<open>The state after exactly \<open>n\<close> firings.\<close>

fun fireTimes :: "env \<Rightarrow> nat \<Rightarrow> world \<Rightarrow> world" where
  "fireTimes e 0 w = w"
| "fireTimes e (Suc n) w = fireTimes e n (fireNext e w)"

text \<open>
  The comparison of the polling step, in the spec's words: the target is reachable at
  an instant when the scrollable extent of the document, with the scrollbar width added
  back, covers it in both axes; a step is ready when the target is reachable or the
  deadline has passed.
\<close>

definition effectiveScrollBarWidth :: "env \<Rightarrow> world \<Rightarrow> int" where
  "effectiveScrollBarWidth e w =
     (if scrollBarWidth w = 0 then getScrollbarWidth e else scrollBarWidth w)"

definition reachableAt :: "env \<Rightarrow> int \<Rightarrow> ScrollTarget \<Rightarrow> int \<Rightarrow> bool" where
  "reachableAt e sbw t tm =
     (real_of_int (documentWidth (document e tm) + sbw - innerWidth (document e tm)) \<ge> x t \<and>
      real_of_int (documentHeight (document e tm) + sbw - innerHeight (document e tm)) \<ge> y t)"

definition ready :: "env \<Rightarrow> int \<Rightarrow> ScrollTarget \<Rightarrow> int \<Rightarrow> bool" where
  "ready e sbw t tm = (reachableAt e sbw t tm \<or> tm > latestTimeToTry t)"

definition pollDelay :: "env \<Rightarrow> int" where
  "pollDelay e = max 0 (TRY_TO_SCROLL_INTERVAL_MS (runtimeConfig e))"

section \<open>Reachable states of the plugin\<close>

text \<open>The state the plugin's setup leaves behind.\<close>

definition initial :: "world \<Rightarrow> bool" where
  "initial w =
     (poppedState w = JNull \<and> \<not> isMounted w \<and> timeoutHandle w = None \<and>
      scrollBarWidth w = 0 \<and> timers w = [] \<and> scrollCalls w = [] \<and> nativeCalls w = [])"

text \<open>
  Every state the handlers can produce from there, whatever the order of the events:
  lifecycle hooks, history calls of the application, back/forward navigation, timers
  firing, time passing and the viewport moving.
\<close>

inductive reachable :: "env \<Rightarrow> world \<Rightarrow> bool" for e :: env where
  r_init: "initial w \<Longrightarrow> reachable e w"
| r_mounted: "reachable e w \<Longrightarrow> reachable e (onAppMounted w)"
| r_pageFinish: "reachable e w \<Longrightarrow> reachable e (onPageFinish e w)"
| r_popState: "reachable e w \<Longrightarrow> reachable e (onPopState (w\<lparr>historyState := st\<rparr>) st)"
| r_beforeUnload: "reachable e w \<Longrightarrow> reachable e (snd (onBeforeUnload e w))"
| r_replaceState: "reachable e w \<Longrightarrow> reachable e (snd (replaceState e w st args))"
| r_pushState: "reachable e w \<Longrightarrow> reachable e (snd (pushState e w args))"
| r_fire: "reachable e w \<Longrightarrow> tm \<in> set (timers w) \<Longrightarrow> reachable e (fire e w tm)"
| r_tick: "reachable e w \<Longrightarrow> 0 \<le> dt \<Longrightarrow> reachable e (w\<lparr>now := now w + dt\<rparr>)"
| r_viewport: "reachable e w \<Longrightarrow> reachable e (w\<lparr>scrollX := a, scrollY := b\<rparr>)"

fun isPoll :: "task \<Rightarrow> bool" where
  "isPoll (Poll t) = True"
| "isPoll (Begin s) = False"

definition pendingPolls :: "world \<Rightarrow> timer list" where
  "pendingPolls w = filter (\<lambda>tm. isPoll (job tm)) (timers w)"

text \<open>
  The scheduler's discipline: at most one retry timer is pending, \<open>timeoutHandle\<close> is its
  handle, and no pending handle will be handed out again.
\<close>

definition singleAttempt :: "world \<Rightarrow> bool" where
  "singleAttempt w =
     (length (pendingPolls w) \<le> 1 \<and>
      (\<forall>tm \<in> set (pendingPolls w). timeoutHandle w = Some (timerId tm)) \<and>
      (\<forall>tm \<in> set (timers w). timerId tm < nextTimerId w))"

text \<open>
  Runs in which no further attempt begins: retry timers fire, time passes, the viewport
  moves, and every handler but the navigation-finished one may run; no deferred start
  fires.
\<close>

inductive pollRun :: "env \<Rightarrow> world \<Rightarrow> world \<Rightarrow> bool" for e :: env and w :: world where
  p_refl: "pollRun e w w"
| p_fire: "pollRun e w w' \<Longrightarrow> tm \<in> set (pendingPolls w') \<Longrightarrow> pollRun e w (fire e w' tm)"
| p_tick: "pollRun e w w' \<Longrightarrow> 0 \<le> dt \<Longrightarrow> pollRun e w (w'\<lparr>now := now w' + dt\<rparr>)"
| p_mounted: "pollRun e w w' \<Longrightarrow> pollRun e w (onAppMounted w')"
| p_popState: "pollRun e w w' \<Longrightarrow> pollRun e w (onPopState (w'\<lparr>historyState := st\<rparr>) st)"
| p_beforeUnload: "pollRun e w w' \<Longrightarrow> pollRun e w (snd (onBeforeUnload e w'))"
| p_replaceState: "pollRun e w w' \<Longrightarrow> pollRun e w (snd (replaceState e w' st args))"
| p_pushState: "pollRun e w w' \<Longrightarrow> pollRun e w (snd (pushState e w' args))"
| p_viewport: "pollRun e w w' \<Longrightarrow> pollRun e w (w'\<lparr>scrollX := a, scrollY := b\<rparr>)"

section \<open>Example scenarios\<close>

text \<open>A document of the given content size in a viewport of the given size.\<close>

definition plainDocument :: "int \<Rightarrow> int \<Rightarrow> int \<Rightarrow> int \<Rightarrow> dom" where
  "plainDocument dw dh vw vh =
     \<lparr>bodyScrollWidth = dw, bodyOffsetWidth = dw, htmlClientWidth = vw,
      htmlScrollWidth = dw, htmlOffsetWidth = dw,
      bodyScrollHeight = dh, bodyOffsetHeight = dh, htmlClientHeight = vh,
      htmlScrollHeight = dh, htmlOffsetHeight = dh,
      innerWidth = vw, innerHeight = vh\<rparr>"

text \<open>A browser with 15 pixel scrollbars whose native history primitives never throw.\<close>

definition exampleEnv :: "(int \<Rightarrow> dom) \<Rightarrow> ScrollRestorationOptions option \<Rightarrow> env" where
  "exampleEnv doc rc =
     \<lparr>document = doc, widthNoScroll = 100, widthWithScroll = 85,
      nativeReplaceThrows = (\<lambda>s a. None), nativePushThrows = (\<lambda>a. None),
      runtimeConfig = rc\<rparr>"

text \<open>The same browser, refusing every \<open>replaceState\<close> call (as a rate limit does).\<close>

definition throttledEnv :: env where
  "throttledEnv =
     (exampleEnv (\<lambda>t. plainDocument 1024 1585 1024 800) None)
       \<lparr>nativeReplaceThrows := (\<lambda>s a. Some (DOMException ''SecurityError''))\<rparr>"

text \<open>
  A page in an 800 pixel high viewport whose content loads over time: the reachable
  height is 500 at time 0, grows by 100 every 50 ms and stays at 1200 from 350 ms on.
\<close>

definition growingDocument :: "int \<Rightarrow> dom" where
  "growingDocument t = plainDocument 1024 (if t < 350 then 1285 + 2 * t else 1985) 1024 800"

text \<open>A page whose reachable height is 800 for ever.\<close>

definition shortDocument :: "int \<Rightarrow> dom" where
  "shortDocument t = plainDocument 1024 1585 1024 800"

definition exampleWorld :: world where
  "exampleWorld =
     \<lparr>now = 0, timers = [], nextTimerId = 1, timeoutHandle = None, scrollBarWidth = 0,
      scrollCalls = [], nativeCalls = [], poppedState = JNull, isMounted = False,
      historyState = JNull, scrollX = 0, scrollY = 0\<rparr>"

definition position :: "real \<Rightarrow> real \<Rightarrow> jsval" where
  "position a b = JObj [''__scrollX'' \<mapsto> JNum a, ''__scrollY'' \<mapsto> JNum b]"

text \<open>A mounted application on an entry with a field of its own, scrolled down 250 pixels.\<close>

definition visitedWorld :: world where
  "visitedWorld =
     exampleWorld\<lparr>isMounted := True, scrollY := 250, historyState := JObj [''page'' \<mapsto> JStr ''a'']\<rparr>"

text \<open>The arguments of a navigation to a new entry.\<close>

definition nextArgs :: "jsval list" where
  "nextArgs = [JObj Map.empty, JStr [], JStr ''/next'']"

text \<open>The restoration target of the growing page, with the default budget of 3000 ms.\<close>

definition growingTarget :: ScrollTarget where
  "growingTarget = \<lparr>x = 0, y = 1000, latestTimeToTry = 3000\<rparr>"

text \<open>A configuration with a budget of 300 ms and an interval of 50 ms.\<close>

definition slowConfig :: "ScrollRestorationOptions option" where
  "slowConfig =
     Some \<lparr>scrollRestorationTimeoutMs = Some 300, tryToScrollIntervalMs = Some 50, debug = None\<rparr>"

text \<open>
  A back navigation: the application is mounted and scrolled to \<open>(99, 99)\<close>, a popstate event
  brings the state \<open>{__scrollX: 10, __scrollY: 20}\<close>, and the router then overwrites the
  current entry, which the wrapper stamps with the live position \<open>(99, 99)\<close>.
\<close>

definition backWorld :: "env \<Rightarrow> world" where
  "backWorld e =
     snd (replaceState e
       (onPopState ((onAppMounted exampleWorld)\<lparr>scrollX := 99, scrollY := 99\<rparr>
                      \<lparr>historyState := position 10 20\<rparr>) (position 10 20))
       (JObj Map.empty) [JStr []])"

text \<open>
  An attempt for the target \<open>t\<close> is in progress since a start at which the next free
  handle was \<open>n0\<close> and the scroll calls were \<open>c0\<close>: every pending retry was created
  after the start and carries \<open>t\<close>, and either nothing was scrolled since, or \<open>t\<close> was
  scrolled to once and no retry is left.
\<close>

definition attemptInProgress ::
  "nat \<Rightarrow> (real \<times> real) list \<Rightarrow> ScrollTarget \<Rightarrow> world \<Rightarrow> bool" where
  "attemptInProgress n0 c0 t w =
     (singleAttempt w \<and> n0 \<le> nextTimerId w \<and>
      (\<forall>p \<in> set (pendingPolls w). n0 \<le> timerId p \<and> job p = Poll t) \<and>
      (scrollCalls w = c0 \<or> scrollCalls w = c0 @ [(x t, y t)] \<and> pendingPolls w = []))"

text \<open>
  Two attempts: a page with a stored position \<open>(0, 5000)\<close> finishes loading and its
  deferred start runs; then a back/forward event brings the position \<open>(0, 100)\<close> and the
  page finishes again.
\<close>

definition firstAttemptWorld :: "env \<Rightarrow> world" where
  "firstAttemptWorld e =
     fire e (onPageFinish e (exampleWorld\<lparr>historyState := position 0 5000\<rparr>))
       (Timer 1 0 (Begin (position 0 5000)))"

definition secondAttemptWorld :: "env \<Rightarrow> world" where
  "secondAttemptWorld e =
     onPageFinish e
       (onPopState ((firstAttemptWorld e)\<lparr>historyState := position 0 100\<rparr>) (position 0 100))"

text \<open>
  A page that is being restored: not yet mounted, its entry holds a field of its own and
  the position \<open>(120, 340)\<close>, while the viewport stands at \<open>(5, 6)\<close>.
\<close>

definition restoringWorld :: world where
  "restoringWorld =
     exampleWorld\<lparr>historyState :=
                    JObj [''page'' \<mapsto> JStr ''a'', ''__scrollX'' \<mapsto> JNum 120, ''__scrollY'' \<mapsto> JNum 340],
                  scrollX := 5, scrollY := 6\<rparr>"

text \<open>A new state with a field of its own.\<close>

definition queryState :: jsval where
  "queryState = JObj [''q'' \<mapsto> JStr ''z'']"

section \<open>Properties of the navigation interceptor\<close>

lemma Object_assign_two:
  "Object_assign Map.empty [s, JObj m] = JObj (ownProps s ++ m)"
  by (simp add: Object_assign_def)

lemma originalReplaceState_calls:
  "nativeCalls (snd (originalReplaceState e w s a)) = nativeCalls w @ [NativeReplaceState s a]"
  by (simp add: originalReplaceState_def Let_def split: option.splits)

lemma originalPushState_calls:
  "nativeCalls (snd (originalPushState e w a)) = nativeCalls w @ [NativePushState a]"
  by (simp add: originalPushState_def Let_def split: option.splits)

lemma originalReplaceState_result:
  "fst (originalReplaceState e w s a) = nativeReplaceThrows e s a"
  by (simp add: originalReplaceState_def Let_def split: option.splits)

lemma getProp_cases:
  "getProp v k = (if v = JNull \<or> v = JUndefined then Inl TypeError else Inr (lookupProp v k))"
  by (cases v) simp_all

lemma replaceState_mounted:
  "isMounted w \<Longrightarrow> replaceState e w s a =
     originalReplaceState e w
       (JObj (ownProps s ++ [''__scrollX'' \<mapsto> JNum (scrollX w), ''__scrollY'' \<mapsto> JNum (scrollY w)])) a"
  by (simp add: replaceState_def Object_assign_two)

lemma replaceState_unmounted:
  "\<not> isMounted w \<Longrightarrow> historyState w \<noteq> JNull \<Longrightarrow> historyState w \<noteq> JUndefined \<Longrightarrow>
   replaceState e w s a =
     originalReplaceState e w
       (JObj (ownProps s ++ [''__scrollX'' \<mapsto> lookupProp (historyState w) ''__scrollX'',
                             ''__scrollY'' \<mapsto> lookupProp (historyState w) ''__scrollY''])) a"
  by (simp add: replaceState_def Object_assign_two getProp_cases)

lemma replaceState_unmounted_nullish:
  "\<not> isMounted w \<Longrightarrow> historyState w = JNull \<or> historyState w = JUndefined \<Longrightarrow>
   replaceState e w s a = (Some TypeError, w)"
  by (auto simp add: replaceState_def)

text \<open>
  Claim C3. Whatever the state \<open>S\<close> given to the wrapped \<open>replaceState\<close>, mounted or not,
  every state the wrapper hands to the native \<open>replaceState\<close> has the same fields as \<open>S\<close>
  apart from \<open>__scrollX\<close> and \<open>__scrollY\<close>, and the other arguments are passed on as
  they are. When the application is mounted, or the current entry has a state, the
  wrapper makes exactly one such call.
\<close>

theorem replaceState_preserves_other_fields:
  assumes "nativeCalls (snd (replaceState e w S otherArgs)) = nativeCalls w @ cs"
  shows "(isMounted w \<or> (historyState w \<noteq> JNull \<and> historyState w \<noteq> JUndefined)
            \<longrightarrow> (\<exists>ns. cs = [NativeReplaceState ns otherArgs])) \<and>
         (\<forall>ns as k. NativeReplaceState ns as \<in> set cs \<longrightarrow> k \<noteq> ''__scrollX'' \<longrightarrow> k \<noteq> ''__scrollY''
            \<longrightarrow> ownProps ns k = ownProps S k)"
proof (cases "isMounted w")
  case True
  with assms show ?thesis
    by (auto simp add: replaceState_mounted originalReplaceState_calls map_add_def)
next
  case False
  show ?thesis
  proof (cases "historyState w = JNull \<or> historyState w = JUndefined")
    case True
    with False assms show ?thesis
      by (auto simp add: replaceState_unmounted_nullish)
  next
    case False
    with \<open>\<not> isMounted w\<close> assms show ?thesis
      by (auto simp add: replaceState_unmounted originalReplaceState_calls map_add_def)
  qed
qed

theorem replaceState_preserves_other_fields_witness:
  "nativeCalls (snd (replaceState (exampleEnv shortDocument None)
       (exampleWorld\<lparr>isMounted := True, scrollY := 250\<rparr>)
       (JObj [''key'' \<mapsto> JStr ''v'', ''__scrollY'' \<mapsto> JNum 7]) [JStr []])) =
     nativeCalls (exampleWorld\<lparr>isMounted := True, scrollY := 250\<rparr>) @
       [NativeReplaceState
          (JObj ([''key'' \<mapsto> JStr ''v'', ''__scrollY'' \<mapsto> JNum 7] ++
                 [''__scrollX'' \<mapsto> JNum 0, ''__scrollY'' \<mapsto> JNum 250])) [JStr []]] \<and>
   ownProps (JObj ([''key'' \<mapsto> JStr ''v'', ''__scrollY'' \<mapsto> JNum 7] ++
                 [''__scrollX'' \<mapsto> JNum 0, ''__scrollY'' \<mapsto> JNum 250])) ''key'' =
     ownProps (JObj [''key'' \<mapsto> JStr ''v'', ''__scrollY'' \<mapsto> JNum 7]) ''key''"
  using replaceState_preserves_other_fields
    [of "exampleEnv shortDocument None" "exampleWorld\<lparr>isMounted := True, scrollY := 250\<rparr>"
        "JObj [''key'' \<mapsto> JStr ''v'', ''__scrollY'' \<mapsto> JNum 7]" "[JStr []]"
        "[NativeReplaceState
          (JObj ([''key'' \<mapsto> JStr ''v'', ''__scrollY'' \<mapsto> JNum 7] ++
                 [''__scrollX'' \<mapsto> JNum 0, ''__scrollY'' \<mapsto> JNum 250])) [JStr []]]"]
  by (simp add: replaceState_mounted originalReplaceState_calls exampleWorld_def)

text \<open>
  Claim C4 says that, before the application is mounted, the wrapped \<open>replaceState\<close>
  stamps the new state with the position stored in the current history entry. Where the
  entry holds a state it does: with the stored position \<open>(120, 340)\<close>, the viewport at
  \<open>(5, 6)\<close> and the new state \<open>{q: 'z'}\<close>, the native call receives
  \<open>{q: 'z', __scrollX: 120, __scrollY: 340}\<close>. Where \<open>history.state\<close> is still \<open>null\<close>,
  the read of \<open>window.history.state.__scrollX\<close> throws, and no state, stamped or not,
  reaches the native primitive.
\<close>

theorem replaceState_unmounted_null_entry_not_stamped:
  "replaceState (exampleEnv shortDocument None) exampleWorld queryState [JStr []] =
     (Some TypeError, exampleWorld) \<and>
   nativeCalls (snd (replaceState (exampleEnv shortDocument None) exampleWorld queryState [JStr []])) = [] \<and>
   nativeCalls (snd (replaceState (exampleEnv shortDocument None) restoringWorld queryState [JStr []])) =
     [NativeReplaceState
        (JObj (ownProps queryState ++ [''__scrollX'' \<mapsto> JNum 120, ''__scrollY'' \<mapsto> JNum 340]))
        [JStr []]]"
proof -
  have n: "\<not> isMounted exampleWorld" "historyState exampleWorld = JNull"
    "nativeCalls exampleWorld = []"
    by (simp_all add: exampleWorld_def)
  have r: "\<not> isMounted restoringWorld" "historyState restoringWorld \<noteq> JNull"
    "historyState restoringWorld \<noteq> JUndefined" "nativeCalls restoringWorld = []"
    "lookupProp (historyState restoringWorld) ''__scrollX'' = JNum 120"
    "lookupProp (historyState restoringWorld) ''__scrollY'' = JNum 340"
    by (simp_all add: restoringWorld_def exampleWorld_def lookupProp_def)
  show ?thesis
    by (simp add: replaceState_unmounted_nullish n replaceState_unmounted r
        originalReplaceState_calls)
qed

text \<open>
  When the application is mounted, or the current entry has a state, the wrapped
  \<open>replaceState\<close> fails exactly when the native call it makes fails, with the same error.
\<close>

lemma replaceState_error_is_native:
  assumes "isMounted w \<or> (historyState w \<noteq> JNull \<and> historyState w \<noteq> JUndefined)"
  shows "\<exists>ns. nativeCalls (snd (replaceState e w s a)) = nativeCalls w @ [NativeReplaceState ns a] \<and>
              fst (replaceState e w s a) = nativeReplaceThrows e ns a"
proof (cases "isMounted w")
  case True
  then show ?thesis
    by (simp add: replaceState_mounted originalReplaceState_calls originalReplaceState_result)
next
  case False
  with assms show ?thesis
    by (simp add: replaceState_unmounted originalReplaceState_calls originalReplaceState_result)
qed

text \<open>
  Claim C8 says the wrappers throw only when the native primitive does. Before the
  application is mounted, with \<open>history.state\<close> still \<open>null\<close>, the wrapped \<open>replaceState\<close>
  reads \<open>window.history.state.__scrollX\<close> and throws a TypeError of its own, although the
  native primitive would have accepted the call; the wrapped \<open>pushState\<close> fails in the
  same way, before it reaches the native \<open>pushState\<close>.
\<close>

theorem replaceState_unmounted_null_entry_throws:
  "replaceState (exampleEnv shortDocument None) exampleWorld (JObj Map.empty) [JStr []] =
     (Some TypeError, exampleWorld) \<and>
   nativeReplaceThrows (exampleEnv shortDocument None)
     (Object_assign Map.empty [JObj Map.empty, position 0 0]) [JStr []] = None \<and>
   pushState (exampleEnv shortDocument None) exampleWorld [JObj Map.empty, JStr [], JStr ''/next''] =
     (Some TypeError, exampleWorld)"
  by (simp add: replaceState_def pushState_def exampleWorld_def exampleEnv_def)

text \<open>
  Claim C9 says that every call of the wrapped \<open>pushState\<close> ends by delegating to the
  native \<open>pushState\<close>. When the native \<open>replaceState\<close> refuses the stamping call, the
  exception leaves the wrapper and the native \<open>pushState\<close> is never called.
\<close>

theorem pushState_delegation_counterexample:
  "fst (pushState throttledEnv visitedWorld nextArgs) = Some (DOMException ''SecurityError'') \<and>
   NativePushState nextArgs \<notin> set (nativeCalls (snd (pushState throttledEnv visitedWorld nextArgs)))"
  by (simp add: pushState_def replaceState_mounted originalReplaceState_def throttledEnv_def
      exampleEnv_def exampleWorld_def visitedWorld_def Let_def)

text \<open>
  Claim C9, amended. The wrapped \<open>pushState\<close> first calls the wrapped \<open>replaceState\<close> on
  the state of the current entry. If that call returns normally, the outgoing entry has
  been stamped with its final scroll position before the new entry is committed: the
  native \<open>replaceState\<close> has received, and installed, the current state with its other
  fields unchanged and with \<open>__scrollX\<close> and \<open>__scrollY\<close> set to the live viewport
  position when mounted, and to the position the entry already stores when not; the
  native \<open>pushState\<close> is then called with the original arguments. If the native
  \<open>replaceState\<close> throws, the exception propagates and the native \<open>pushState\<close> is not
  called.
\<close>

theorem pushState_stamps_then_delegates:
  "(fst (replaceState e w (historyState w) [JStr []]) = None \<longrightarrow>
      pushState e w args =
        originalPushState e (snd (replaceState e w (historyState w) [JStr []])) args \<and>
      (\<exists>ns. nativeCalls (snd (pushState e w args)) =
               nativeCalls w @ [NativeReplaceState ns [JStr []], NativePushState args] \<and>
            historyState (snd (replaceState e w (historyState w) [JStr []])) = ns \<and>
            (\<forall>k. k \<noteq> ''__scrollX'' \<longrightarrow> k \<noteq> ''__scrollY'' \<longrightarrow>
                 ownProps ns k = ownProps (historyState w) k) \<and>
            ownProps ns ''__scrollX'' =
              Some (if isMounted w then JNum (scrollX w)
                    else lookupProp (historyState w) ''__scrollX'') \<and>
            ownProps ns ''__scrollY'' =
              Some (if isMounted w then JNum (scrollY w)
                    else lookupProp (historyState w) ''__scrollY''))) \<and>
   (\<forall>ns err. nativeCalls (snd (replaceState e w (historyState w) [JStr []])) =
               nativeCalls w @ [NativeReplaceState ns [JStr []]] \<longrightarrow>
             nativeReplaceThrows e ns [JStr []] = Some err \<longrightarrow>
             fst (pushState e w args) = Some err \<and>
             nativeCalls (snd (pushState e w args)) =
               nativeCalls w @ [NativeReplaceState ns [JStr []]])"
proof (cases "isMounted w")
  case True
  then show ?thesis
    by (auto simp add: pushState_def replaceState_mounted originalReplaceState_def
        originalPushState_calls Let_def map_add_def split: option.splits)
next
  case False
  show ?thesis
  proof (cases "historyState w = JNull \<or> historyState w = JUndefined")
    case True
    with False show ?thesis
      by (auto simp add: pushState_def replaceState_unmounted_nullish)
  next
    case False
    with \<open>\<not> isMounted w\<close> show ?thesis
      by (auto simp add: pushState_def replaceState_unmounted originalReplaceState_def
          originalPushState_calls Let_def map_add_def split: option.splits)
  qed
qed

theorem pushState_stamps_then_delegates_witness:
  "fst (replaceState (exampleEnv shortDocument None) visitedWorld (historyState visitedWorld) [JStr []]) = None \<and>
   (\<exists>ns. nativeCalls (snd (pushState (exampleEnv shortDocument None) visitedWorld nextArgs)) =
            [NativeReplaceState ns [JStr []], NativePushState nextArgs] \<and>
          ownProps ns ''page'' = Some (JStr ''a'') \<and>
          ownProps ns ''__scrollX'' = Some (JNum 0) \<and> ownProps ns ''__scrollY'' = Some (JNum 250)) \<and>
   fst (replaceState (exampleEnv shortDocument None) restoringWorld (historyState restoringWorld) [JStr []]) = None \<and>
   (\<exists>ns. nativeCalls (snd (pushState (exampleEnv shortDocument None) restoringWorld nextArgs)) =
            [NativeReplaceState ns [JStr []], NativePushState nextArgs] \<and>
          ownProps ns ''page'' = Some (JStr ''a'') \<and>
          ownProps ns ''__scrollX'' = Some (JNum 120) \<and> ownProps ns ''__scrollY'' = Some (JNum 340)) \<and>
   nativeReplaceThrows throttledEnv (JObj (ownProps (JObj [''page'' \<mapsto> JStr ''a'']) ++
        [''__scrollX'' \<mapsto> JNum 0, ''__scrollY'' \<mapsto> JNum 250])) [JStr []] =
     Some (DOMException ''SecurityError'') \<and>
   fst (pushState throttledEnv visitedWorld nextArgs) = Some (DOMException ''SecurityError'') \<and>
   nativeCalls (snd (pushState throttledEnv visitedWorld nextArgs)) =
     [NativeReplaceState (JObj (ownProps (JObj [''page'' \<mapsto> JStr ''a'']) ++
        [''__scrollX'' \<mapsto> JNum 0, ''__scrollY'' \<mapsto> JNum 250])) [JStr []]]"
proof -
  let ?e = "exampleEnv shortDocument None"
  let ?ns = "JObj (ownProps (JObj [''page'' \<mapsto> JStr ''a'']) ++
        [''__scrollX'' \<mapsto> JNum 0, ''__scrollY'' \<mapsto> JNum 250])"
  have m: "isMounted visitedWorld" and h: "historyState visitedWorld = JObj [''page'' \<mapsto> JStr ''a'']"
    and c: "nativeCalls visitedWorld = []" and sx: "scrollX visitedWorld = 0"
    and sy: "scrollY visitedWorld = 250"
    by (simp_all add: visitedWorld_def exampleWorld_def)
  have r: "\<not> isMounted restoringWorld" "historyState restoringWorld \<noteq> JNull"
    "historyState restoringWorld \<noteq> JUndefined" "nativeCalls restoringWorld = []"
    "lookupProp (historyState restoringWorld) ''__scrollX'' = JNum 120"
    "lookupProp (historyState restoringWorld) ''__scrollY'' = JNum 340"
    "ownProps (historyState restoringWorld) ''page'' = Some (JStr ''a'')"
    by (simp_all add: restoringWorld_def exampleWorld_def lookupProp_def)
  have ok: "fst (replaceState ?e visitedWorld (historyState visitedWorld) [JStr []]) = None"
    by (simp add: m replaceState_mounted originalReplaceState_result exampleEnv_def)
  from pushState_stamps_then_delegates [of ?e visitedWorld nextArgs, THEN conjunct1, THEN mp, OF ok, THEN conjunct2]
  obtain ns where
    "nativeCalls (snd (pushState ?e visitedWorld nextArgs)) =
       nativeCalls visitedWorld @ [NativeReplaceState ns [JStr []], NativePushState nextArgs]"
    "\<forall>k. k \<noteq> ''__scrollX'' \<longrightarrow> k \<noteq> ''__scrollY'' \<longrightarrow> ownProps ns k = ownProps (historyState visitedWorld) k"
    "ownProps ns ''__scrollX'' = Some (if isMounted visitedWorld then JNum (scrollX visitedWorld)
        else lookupProp (historyState visitedWorld) ''__scrollX'')"
    "ownProps ns ''__scrollY'' = Some (if isMounted visitedWorld then JNum (scrollY visitedWorld)
        else lookupProp (historyState visitedWorld) ''__scrollY'')"
    by auto
  then have first: "\<exists>ns. nativeCalls (snd (pushState ?e visitedWorld nextArgs)) =
            [NativeReplaceState ns [JStr []], NativePushState nextArgs] \<and>
          ownProps ns ''page'' = Some (JStr ''a'') \<and>
          ownProps ns ''__scrollX'' = Some (JNum 0) \<and> ownProps ns ''__scrollY'' = Some (JNum 250)"
    by (simp add: c h sx sy m)
  have ok2: "fst (replaceState ?e restoringWorld (historyState restoringWorld) [JStr []]) = None"
    by (simp add: r replaceState_unmounted originalReplaceState_result exampleEnv_def)
  from pushState_stamps_then_delegates [of ?e restoringWorld nextArgs, THEN conjunct1, THEN mp, OF ok2, THEN conjunct2]
  obtain ns2 where
    "nativeCalls (snd (pushState ?e restoringWorld nextArgs)) =
       nativeCalls restoringWorld @ [NativeReplaceState ns2 [JStr []], NativePushState nextArgs]"
    "\<forall>k. k \<noteq> ''__scrollX'' \<longrightarrow> k \<noteq> ''__scrollY'' \<longrightarrow> ownProps ns2 k = ownProps (historyState restoringWorld) k"
    "ownProps ns2 ''__scrollX'' = Some (if isMounted restoringWorld then JNum (scrollX restoringWorld)
        else lookupProp (historyState restoringWorld) ''__scrollX'')"
    "ownProps ns2 ''__scrollY'' = Some (if isMounted restoringWorld then JNum (scrollY restoringWorld)
        else lookupProp (historyState restoringWorld) ''__scrollY'')"
    by auto
  then have second: "\<exists>ns. nativeCalls (snd (pushState ?e restoringWorld nextArgs)) =
            [NativeReplaceState ns [JStr []], NativePushState nextArgs] \<and>
          ownProps ns ''page'' = Some (JStr ''a'') \<and>
          ownProps ns ''__scrollX'' = Some (JNum 120) \<and> ownProps ns ''__scrollY'' = Some (JNum 340)"
    by (simp add: r)
  have thr: "nativeReplaceThrows throttledEnv ?ns [JStr []] = Some (DOMException ''SecurityError'')"
    by (simp add: throttledEnv_def exampleEnv_def)
  have calls: "nativeCalls (snd (replaceState throttledEnv visitedWorld (historyState visitedWorld) [JStr []])) =
      nativeCalls visitedWorld @ [NativeReplaceState ?ns [JStr []]]"
    by (simp add: m replaceState_mounted originalReplaceState_calls h sx sy)
  from pushState_stamps_then_delegates [of throttledEnv visitedWorld nextArgs, THEN conjunct2, THEN spec, THEN spec, THEN mp, THEN mp, OF calls thr]
  have "fst (pushState throttledEnv visitedWorld nextArgs) = Some (DOMException ''SecurityError'') \<and>
        nativeCalls (snd (pushState throttledEnv visitedWorld nextArgs)) =
          nativeCalls visitedWorld @ [NativeReplaceState ?ns [JStr []]]"
    .
  with ok first ok2 second thr show ?thesis by (simp add: c)
qed

section \<open>Properties of the configuration\<close>

text \<open>
  Claim C10. The timeout and the interval are resolved with \<open>||\<close>: when the configuration
  object is absent, or the field is absent or 0, the value is the default (3000 ms and
  50 ms); the resolved values are never 0. This holds for whatever object the module's
  setup has stored in the runtime configuration.
\<close>

theorem config_falsy_fallback:
  "(rc = None \<longrightarrow> SCROLL_RESTORATION_TIMEOUT_MS rc = 3000 \<and> TRY_TO_SCROLL_INTERVAL_MS rc = 50) \<and>
   (\<forall>c. rc = Some c \<longrightarrow> (scrollRestorationTimeoutMs c = Some 0 \<or> scrollRestorationTimeoutMs c = None)
        \<longrightarrow> SCROLL_RESTORATION_TIMEOUT_MS rc = 3000) \<and>
   (\<forall>c. rc = Some c \<longrightarrow> (tryToScrollIntervalMs c = Some 0 \<or> tryToScrollIntervalMs c = None)
        \<longrightarrow> TRY_TO_SCROLL_INTERVAL_MS rc = 50) \<and>
   SCROLL_RESTORATION_TIMEOUT_MS rc \<noteq> 0 \<and> TRY_TO_SCROLL_INTERVAL_MS rc \<noteq> 0"
  by (auto simp add: SCROLL_RESTORATION_TIMEOUT_MS_def TRY_TO_SCROLL_INTERVAL_MS_def
      or_number_def config_def split: option.splits)

theorem config_falsy_fallback_witness:
  "SCROLL_RESTORATION_TIMEOUT_MS
     (Some \<lparr>scrollRestorationTimeoutMs = Some 0, tryToScrollIntervalMs = Some 0, debug = None\<rparr>) = 3000 \<and>
   TRY_TO_SCROLL_INTERVAL_MS
     (Some \<lparr>scrollRestorationTimeoutMs = Some 0, tryToScrollIntervalMs = Some 0, debug = None\<rparr>) = 50 \<and>
   SCROLL_RESTORATION_TIMEOUT_MS None = 3000 \<and> TRY_TO_SCROLL_INTERVAL_MS None = 50"
  using config_falsy_fallback
    [of "Some \<lparr>scrollRestorationTimeoutMs = Some 0, tryToScrollIntervalMs = Some 0, debug = None\<rparr>"]
    config_falsy_fallback [of None]
  by simp

section \<open>Properties of the restoration scheduler\<close>

lemma clearTimeout_fields [simp]:
  "now (clearTimeout w h) = now w"
  "scrollBarWidth (clearTimeout w h) = scrollBarWidth w"
  "scrollCalls (clearTimeout w h) = scrollCalls w"
  "nativeCalls (clearTimeout w h) = nativeCalls w"
  "nextTimerId (clearTimeout w h) = nextTimerId w"
  "timeoutHandle (clearTimeout w h) = timeoutHandle w"
  "poppedState (clearTimeout w h) = poppedState w"
  "isMounted (clearTimeout w h) = isMounted w"
  "historyState (clearTimeout w h) = historyState w"
  by (simp_all add: clearTimeout_def split: option.splits)

lemma clearTimeout_timers:
  "timers (clearTimeout w h) =
     (case h of None \<Rightarrow> timers w | Some i \<Rightarrow> filter (\<lambda>tm. timerId tm \<noteq> i) (timers w))"
  by (simp add: clearTimeout_def split: option.splits)

lemma clearTimeout_no_timers [simp]: "timers w = [] \<Longrightarrow> timers (clearTimeout w h) = []"
  by (simp add: clearTimeout_timers split: option.splits)

lemma tryToScrollTo_ready:
  assumes "ready e (effectiveScrollBarWidth e w) t (now w)"
  shows "tryToScrollTo e w t =
     (clearTimeout w (timeoutHandle w))
       \<lparr>scrollBarWidth := effectiveScrollBarWidth e w,
        scrollCalls := scrollCalls w @ [(x t, y t)]\<rparr>"
  using assms
  by (auto simp add: tryToScrollTo_def ready_def reachableAt_def effectiveScrollBarWidth_def Let_def
      window_scrollTo_def)

lemma tryToScrollTo_not_ready:
  assumes "\<not> ready e (effectiveScrollBarWidth e w) t (now w)"
  shows "tryToScrollTo e w t =
     (clearTimeout w (timeoutHandle w))
       \<lparr>scrollBarWidth := effectiveScrollBarWidth e w,
        timers := timers (clearTimeout w (timeoutHandle w)) @
                    [Timer (nextTimerId w) (now w + pollDelay e) (Poll t)],
        nextTimerId := Suc (nextTimerId w),
        timeoutHandle := Some (nextTimerId w)\<rparr>"
  using assms
  by (auto simp add: tryToScrollTo_def ready_def reachableAt_def effectiveScrollBarWidth_def Let_def
      setTimeout_def pollDelay_def)

lemma effectiveScrollBarWidth_tryToScrollTo:
  "effectiveScrollBarWidth e (tryToScrollTo e w t) = effectiveScrollBarWidth e w"
proof (cases "ready e (effectiveScrollBarWidth e w) t (now w)")
  case True
  then show ?thesis
    by (simp add: tryToScrollTo_ready) (simp add: effectiveScrollBarWidth_def)
next
  case False
  then show ?thesis
    by (simp add: tryToScrollTo_not_ready) (simp add: effectiveScrollBarWidth_def)
qed

lemma effectiveScrollBarWidth_cong:
  "scrollBarWidth w' = scrollBarWidth w \<Longrightarrow>
   effectiveScrollBarWidth e w' = effectiveScrollBarWidth e w"
  by (simp add: effectiveScrollBarWidth_def)

lemma now_tryToScrollTo: "now (tryToScrollTo e w t) = now w"
  by (cases "ready e (effectiveScrollBarWidth e w) t (now w)")
     (simp_all add: tryToScrollTo_ready tryToScrollTo_not_ready)

lemma fireNext_single:
  "timers w = [tm] \<Longrightarrow>
   fireNext e w = runTask e (w\<lparr>timers := [], now := max (now w) (due tm)\<rparr>) (job tm)"
  by (simp add: fireNext_def fire_def)

lemma pollDelay_nonneg: "0 \<le> pollDelay e"
  by (simp add: pollDelay_def)

text \<open>
  A single attempt with nothing else pending: if the polling step is first ready at its
  \<open>k\<close>-th retry, the loop fires \<open>k\<close> timers, scrolls once at that instant and leaves the
  queue empty; before that it has not scrolled and one retry is pending.
\<close>

lemma poll_run:
  assumes "timers w = []"
    and "\<forall>j<k. \<not> ready e (effectiveScrollBarWidth e w) t (now w + int j * pollDelay e)"
    and "ready e (effectiveScrollBarWidth e w) t (now w + int k * pollDelay e)"
  shows "timers (fireTimes e k (tryToScrollTo e w t)) = [] \<and>
         scrollCalls (fireTimes e k (tryToScrollTo e w t)) = scrollCalls w @ [(x t, y t)] \<and>
         now (fireTimes e k (tryToScrollTo e w t)) = now w + int k * pollDelay e \<and>
         (\<forall>j<k. timers (fireTimes e j (tryToScrollTo e w t)) \<noteq> [] \<and>
                scrollCalls (fireTimes e j (tryToScrollTo e w t)) = scrollCalls w)"
  using assms
proof (induction k arbitrary: w)
  case 0
  then show ?case by (simp add: tryToScrollTo_ready)
next
  case (Suc k)
  let ?w1 = "tryToScrollTo e w t"
  let ?tm = "Timer (nextTimerId w) (now w + pollDelay e) (Poll t)"
  let ?w2 = "?w1\<lparr>timers := [], now := now w + pollDelay e\<rparr>"
  from Suc.prems(2) have nr: "\<not> ready e (effectiveScrollBarWidth e w) t (now w)"
    by (metis add.right_neutral mult_zero_left of_nat_0 zero_less_Suc)
  have t1: "timers ?w1 = [?tm]" and c1: "scrollCalls ?w1 = scrollCalls w"
    using nr Suc.prems(1) by (simp_all add: tryToScrollTo_not_ready)
  have n1: "now ?w1 = now w" by (rule now_tryToScrollTo)
  have next1: "fireNext e ?w1 = tryToScrollTo e ?w2 t"
    using pollDelay_nonneg [of e] by (simp add: fireNext_single [OF t1] n1 max_def)
  have eff2: "effectiveScrollBarWidth e ?w2 = effectiveScrollBarWidth e w"
    using effectiveScrollBarWidth_tryToScrollTo [of e w t]
      effectiveScrollBarWidth_cong [of ?w2 ?w1 e]
    by simp
  have shift: "\<And>j. now ?w2 + int j * pollDelay e = now w + int (Suc j) * pollDelay e"
    by (simp add: algebra_simps)
  have p2: "\<forall>j<k. \<not> ready e (effectiveScrollBarWidth e ?w2) t (now ?w2 + int j * pollDelay e)"
    using Suc.prems(2) unfolding eff2 shift by auto
  have p3: "ready e (effectiveScrollBarWidth e ?w2) t (now ?w2 + int k * pollDelay e)"
    using Suc.prems(3) unfolding eff2 shift by simp
  have ih: "timers (fireTimes e k (tryToScrollTo e ?w2 t)) = [] \<and>
         scrollCalls (fireTimes e k (tryToScrollTo e ?w2 t)) = scrollCalls ?w2 @ [(x t, y t)] \<and>
         now (fireTimes e k (tryToScrollTo e ?w2 t)) = now ?w2 + int k * pollDelay e \<and>
         (\<forall>j<k. timers (fireTimes e j (tryToScrollTo e ?w2 t)) \<noteq> [] \<and>
                scrollCalls (fireTimes e j (tryToScrollTo e ?w2 t)) = scrollCalls ?w2)"
    by (rule Suc.IH [OF _ p2 p3]) simp
  have step: "\<And>j. fireTimes e (Suc j) ?w1 = fireTimes e j (tryToScrollTo e ?w2 t)"
    by (simp add: next1)
  have before: "\<forall>j<Suc k. timers (fireTimes e j ?w1) \<noteq> [] \<and>
                scrollCalls (fireTimes e j ?w1) = scrollCalls w"
  proof (intro allI impI)
    fix j assume "j < Suc k"
    show "timers (fireTimes e j ?w1) \<noteq> [] \<and> scrollCalls (fireTimes e j ?w1) = scrollCalls w"
    proof (cases j)
      case 0
      then show ?thesis by (simp add: t1 c1)
    next
      case (Suc j')
      with \<open>j < Suc k\<close> have "j' < k" by simp
      with ih show ?thesis unfolding Suc step by (simp add: c1)
    qed
  qed
  from ih before show ?case
    unfolding step shift by (simp add: c1)
qed

lemma runEventLoop_fireTimes:
  assumes "\<forall>j<k. timers (fireTimes e j w) \<noteq> []" and "timers (fireTimes e k w) = []"
  shows "runEventLoop e (k + m) w = Some (fireTimes e k w)"
  using assms
proof (induction k arbitrary: w)
  case 0
  then show ?case by (cases m) simp_all
next
  case (Suc k)
  from Suc.prems(1) have ne: "timers w \<noteq> []" by force
  have "\<forall>j<k. timers (fireTimes e j (fireNext e w)) \<noteq> []"
    using Suc.prems(1) by force
  moreover have "timers (fireTimes e k (fireNext e w)) = []"
    using Suc.prems(2) by simp
  ultimately have "runEventLoop e (k + m) (fireNext e w) = Some (fireTimes e k (fireNext e w))"
    by (rule Suc.IH)
  with ne show ?case by simp
qed

text \<open>
  Claim C1. A polling step calls \<open>scrollTo(x, y)\<close> exactly when the document, with the
  scrollbar width added back, covers the target in both axes or the clock has passed the
  deadline; otherwise it does not scroll and schedules one retry after the poll interval.
  Hence an attempt whose step is first ready at the \<open>k\<close>-th retry scrolls exactly once, at
  that retry and not before. For the target \<open>(0, 1000)\<close> on a page whose reachable height
  grows from 500 to 1200, the single scroll happens at 250 ms, when the reachable height
  is 1000, well before the deadline.
\<close>

theorem tryToScrollTo_scrolls_iff_ready:
  "(reachableAt e (effectiveScrollBarWidth e w) t (now w) \<or> now w > latestTimeToTry t \<longrightarrow>
      scrollCalls (tryToScrollTo e w t) = scrollCalls w @ [(x t, y t)] \<and>
      timers (tryToScrollTo e w t) = timers (clearTimeout w (timeoutHandle w))) \<and>
   (\<not> (reachableAt e (effectiveScrollBarWidth e w) t (now w) \<or> now w > latestTimeToTry t) \<longrightarrow>
      scrollCalls (tryToScrollTo e w t) = scrollCalls w \<and>
      timers (tryToScrollTo e w t) =
        timers (clearTimeout w (timeoutHandle w)) @
          [Timer (nextTimerId w)
             (now w + max 0 (TRY_TO_SCROLL_INTERVAL_MS (runtimeConfig e))) (Poll t)] \<and>
      timeoutHandle (tryToScrollTo e w t) = Some (nextTimerId w)) \<and>
   (timers w = [] \<longrightarrow>
    (\<forall>j<k. \<not> ready e (effectiveScrollBarWidth e w) t (now w + int j * pollDelay e)) \<longrightarrow>
    ready e (effectiveScrollBarWidth e w) t (now w + int k * pollDelay e) \<longrightarrow>
      (\<exists>w'. runEventLoop e k (tryToScrollTo e w t) = Some w' \<and>
            scrollCalls w' = scrollCalls w @ [(x t, y t)] \<and>
            now w' = now w + int k * pollDelay e) \<and>
      (\<forall>j<k. scrollCalls (fireTimes e j (tryToScrollTo e w t)) = scrollCalls w))"
proof (intro conjI impI)
  assume "reachableAt e (effectiveScrollBarWidth e w) t (now w) \<or> now w > latestTimeToTry t"
  then have r: "ready e (effectiveScrollBarWidth e w) t (now w)" by (simp add: ready_def)
  show "scrollCalls (tryToScrollTo e w t) = scrollCalls w @ [(x t, y t)]"
    by (simp add: tryToScrollTo_ready [OF r])
  show "timers (tryToScrollTo e w t) = timers (clearTimeout w (timeoutHandle w))"
    by (simp add: tryToScrollTo_ready [OF r])
next
  assume "\<not> (reachableAt e (effectiveScrollBarWidth e w) t (now w) \<or> now w > latestTimeToTry t)"
  then have r: "\<not> ready e (effectiveScrollBarWidth e w) t (now w)" by (simp add: ready_def)
  show "scrollCalls (tryToScrollTo e w t) = scrollCalls w"
    by (simp add: tryToScrollTo_not_ready [OF r])
  show "timers (tryToScrollTo e w t) =
        timers (clearTimeout w (timeoutHandle w)) @
          [Timer (nextTimerId w)
             (now w + max 0 (TRY_TO_SCROLL_INTERVAL_MS (runtimeConfig e))) (Poll t)]"
    by (simp add: tryToScrollTo_not_ready [OF r] pollDelay_def)
  show "timeoutHandle (tryToScrollTo e w t) = Some (nextTimerId w)"
    by (simp add: tryToScrollTo_not_ready [OF r])
next
  assume a: "timers w = []"
    "\<forall>j<k. \<not> ready e (effectiveScrollBarWidth e w) t (now w + int j * pollDelay e)"
    "ready e (effectiveScrollBarWidth e w) t (now w + int k * pollDelay e)"
  note run = poll_run [OF a]
  from run have "runEventLoop e (k + 0) (tryToScrollTo e w t) =
      Some (fireTimes e k (tryToScrollTo e w t))"
    by (intro runEventLoop_fireTimes) simp_all
  with run show "\<exists>w'. runEventLoop e k (tryToScrollTo e w t) = Some w' \<and>
            scrollCalls w' = scrollCalls w @ [(x t, y t)] \<and>
            now w' = now w + int k * pollDelay e"
    by simp
  from run show "\<forall>j<k. scrollCalls (fireTimes e j (tryToScrollTo e w t)) = scrollCalls w"
    by simp
qed

theorem tryToScrollTo_scrolls_iff_ready_witness:
  "timers exampleWorld = [] \<and>
   \<not> reachableAt (exampleEnv growingDocument None) 15 growingTarget 200 \<and>
   reachableAt (exampleEnv growingDocument None) 15 growingTarget 250 \<and>
   scrollCalls (tryToScrollTo (exampleEnv growingDocument None) exampleWorld growingTarget) = [] \<and>
   timers (tryToScrollTo (exampleEnv growingDocument None) exampleWorld growingTarget) =
     [Timer 1 50 (Poll growingTarget)] \<and>
   scrollCalls (fireTimes (exampleEnv growingDocument None) 4
      (tryToScrollTo (exampleEnv growingDocument None) exampleWorld growingTarget)) = [] \<and>
   (\<exists>w'. runEventLoop (exampleEnv growingDocument None) 5
            (tryToScrollTo (exampleEnv growingDocument None) exampleWorld growingTarget) = Some w' \<and>
         scrollCalls w' = [(0, 1000)] \<and> now w' = 250 \<and> now w' \<le> latestTimeToTry growingTarget)"
proof -
  let ?e = "exampleEnv growingDocument None"
  have w: "timers exampleWorld = []" "now exampleWorld = 0" "scrollCalls exampleWorld = []"
    "nextTimerId exampleWorld = 1" "timeoutHandle exampleWorld = None"
    by (simp_all add: exampleWorld_def)
  have s: "effectiveScrollBarWidth ?e exampleWorld = 15"
    by (simp add: effectiveScrollBarWidth_def getScrollbarWidth_def exampleWorld_def exampleEnv_def)
  have d: "pollDelay ?e = 50" "TRY_TO_SCROLL_INTERVAL_MS (runtimeConfig ?e) = 50"
    by (simp_all add: pollDelay_def TRY_TO_SCROLL_INTERVAL_MS_def or_number_def config_def
        exampleEnv_def)
  have reach: "\<And>tm. reachableAt ?e 15 growingTarget tm = (250 \<le> tm)"
    by (auto simp add: reachableAt_def growingTarget_def exampleEnv_def growingDocument_def
        plainDocument_def documentWidth_def documentHeight_def)
  have rdy: "\<And>tm. ready ?e 15 growingTarget tm = (250 \<le> tm)"
    by (auto simp add: ready_def reach) (simp add: growingTarget_def)
  have before: "\<forall>j<5. \<not> ready ?e (effectiveScrollBarWidth ?e exampleWorld) growingTarget
        (now exampleWorld + int j * pollDelay ?e)"
    unfolding s d w rdy by auto
  have at: "ready ?e (effectiveScrollBarWidth ?e exampleWorld) growingTarget
        (now exampleWorld + int 5 * pollDelay ?e)"
    unfolding s d w rdy by simp
  have nr: "\<not> (reachableAt ?e (effectiveScrollBarWidth ?e exampleWorld) growingTarget (now exampleWorld) \<or>
       latestTimeToTry growingTarget < now exampleWorld)"
    unfolding s w reach by (simp add: growingTarget_def)
  note step = tryToScrollTo_scrolls_iff_ready [of ?e exampleWorld growingTarget 5]
  from step nr have first:
    "scrollCalls (tryToScrollTo ?e exampleWorld growingTarget) = [] \<and>
     timers (tryToScrollTo ?e exampleWorld growingTarget) = [Timer 1 50 (Poll growingTarget)]"
    by (simp add: w d clearTimeout_def)
  from step w(1) before at have run:
    "(\<exists>w'. runEventLoop ?e 5 (tryToScrollTo ?e exampleWorld growingTarget) = Some w' \<and>
          scrollCalls w' = scrollCalls exampleWorld @ [(x growingTarget, y growingTarget)] \<and>
          now w' = now exampleWorld + int 5 * pollDelay ?e) \<and>
     (\<forall>j<5. scrollCalls (fireTimes ?e j (tryToScrollTo ?e exampleWorld growingTarget)) =
        scrollCalls exampleWorld)"
    by simp
  then have four: "scrollCalls (fireTimes ?e 4 (tryToScrollTo ?e exampleWorld growingTarget)) = []"
    by (simp add: w)
  from run have last: "\<exists>w'. runEventLoop ?e 5 (tryToScrollTo ?e exampleWorld growingTarget) = Some w' \<and>
         scrollCalls w' = [(0, 1000)] \<and> now w' = 250 \<and> now w' \<le> latestTimeToTry growingTarget"
    by (auto simp add: w d growingTarget_def)
  from w(1) first four last show ?thesis by (simp add: reach)
qed

text \<open>
  Claim C2. With a positive poll interval and nothing else pending, every attempt ends:
  with enough fuel the event loop empties the queue, having made exactly one scroll
  call, to the target coordinates, no later than one interval after the deadline (or at
  once). When the target never becomes reachable the call is made after the deadline.
  With a budget of 300 ms, an interval of 50 ms and a reachable height of 800, the target
  \<open>(0, 5000)\<close> is scrolled to once, between 300 and 350 ms after the start.
\<close>

theorem attempt_terminates:
  assumes "timers w = []" and "0 < TRY_TO_SCROLL_INTERVAL_MS (runtimeConfig e)"
  shows "\<exists>k w'. (\<forall>m. runEventLoop e (k + m) (tryToScrollTo e w t) = Some w') \<and>
           scrollCalls w' = scrollCalls w @ [(x t, y t)] \<and>
           now w \<le> now w' \<and>
           now w' \<le> max (now w) (latestTimeToTry t + TRY_TO_SCROLL_INTERVAL_MS (runtimeConfig e)) \<and>
           ((\<forall>tm. \<not> reachableAt e (effectiveScrollBarWidth e w) t tm) \<longrightarrow>
              latestTimeToTry t < now w')"
proof -
  let ?d = "TRY_TO_SCROLL_INTERVAL_MS (runtimeConfig e)"
  let ?s = "effectiveScrollBarWidth e w"
  let ?P = "\<lambda>j. ready e ?s t (now w + int j * pollDelay e)"
  have d: "pollDelay e = ?d" using assms(2) by (simp add: pollDelay_def)
  define j0 where "j0 = Suc (nat (latestTimeToTry t - now w))"
  have a: "latestTimeToTry t - now w < int j0" unfolding j0_def by linarith
  have "0 \<le> int j0" by simp
  then have "int j0 * 1 \<le> int j0 * ?d"
    using assms(2) by (intro mult_left_mono) simp_all
  with a have "latestTimeToTry t < now w + int j0 * pollDelay e"
    unfolding d by linarith
  then have ex: "?P j0" by (simp add: ready_def)
  define k where "k = (LEAST j. ?P j)"
  have pk: "?P k" unfolding k_def using ex by (rule LeastI)
  have nk: "\<forall>j<k. \<not> ?P j" unfolding k_def using not_less_Least by blast
  note run = poll_run [OF assms(1) nk pk]
  let ?w' = "fireTimes e k (tryToScrollTo e w t)"
  have loop: "\<forall>m. runEventLoop e (k + m) (tryToScrollTo e w t) = Some ?w'"
    using run by (intro allI runEventLoop_fireTimes) simp_all
  have nw: "now ?w' = now w + int k * ?d" using run d by simp
  have lo: "now w \<le> now ?w'" using assms(2) unfolding nw by simp
  have hi: "now ?w' \<le> max (now w) (latestTimeToTry t + ?d)"
  proof (cases k)
    case 0
    then show ?thesis unfolding nw by simp
  next
    case (Suc k')
    then have "\<not> ?P k'" using nk by simp
    then have "now w + int k' * ?d \<le> latestTimeToTry t"
      unfolding d by (simp add: ready_def)
    moreover have "now ?w' = now w + int k' * ?d + ?d"
      using nw unfolding Suc by (simp add: algebra_simps)
    ultimately show ?thesis by linarith
  qed
  have late: "(\<forall>tm. \<not> reachableAt e ?s t tm) \<longrightarrow> latestTimeToTry t < now ?w'"
    using pk unfolding nw d by (auto simp add: ready_def)
  from loop run lo hi late show ?thesis by blast
qed

theorem attempt_terminates_witness:
  "timers exampleWorld = [] \<and>
   0 < TRY_TO_SCROLL_INTERVAL_MS (runtimeConfig (exampleEnv shortDocument slowConfig)) \<and>
   (\<exists>k w'. runEventLoop (exampleEnv shortDocument slowConfig) k
              (runTask (exampleEnv shortDocument slowConfig) exampleWorld (Begin (position 0 5000))) = Some w' \<and>
           scrollCalls w' = [(0, 5000)] \<and> 300 < now w' \<and> now w' \<le> 350)"
proof -
  let ?e = "exampleEnv shortDocument slowConfig"
  let ?t = "\<lparr>x = 0, y = 5000, latestTimeToTry = 300\<rparr>"
  have w: "timers exampleWorld = []" "now exampleWorld = 0" "scrollCalls exampleWorld = []"
    by (simp_all add: exampleWorld_def)
  have d: "TRY_TO_SCROLL_INTERVAL_MS (runtimeConfig ?e) = 50"
    "SCROLL_RESTORATION_TIMEOUT_MS (runtimeConfig ?e) = 300"
    by (simp_all add: TRY_TO_SCROLL_INTERVAL_MS_def SCROLL_RESTORATION_TIMEOUT_MS_def
        or_number_def config_def exampleEnv_def slowConfig_def)
  have task: "runTask ?e exampleWorld (Begin (position 0 5000)) = tryToScrollTo ?e exampleWorld ?t"
    by (simp add: beginTarget_def position_def lookupProp_def d w)
  have never: "\<forall>tm. \<not> reachableAt ?e (effectiveScrollBarWidth ?e exampleWorld) ?t tm"
    by (simp add: reachableAt_def exampleEnv_def shortDocument_def effectiveScrollBarWidth_def
        getScrollbarWidth_def exampleWorld_def
        plainDocument_def documentWidth_def documentHeight_def)
  have pos: "0 < TRY_TO_SCROLL_INTERVAL_MS (runtimeConfig ?e)" by (simp add: d)
  from attempt_terminates [OF w(1) pos, of ?t] never
  obtain k w' where
    loop: "\<forall>m. runEventLoop ?e (k + m) (tryToScrollTo ?e exampleWorld ?t) = Some w'" and
    "scrollCalls w' = scrollCalls exampleWorld @ [(x ?t, y ?t)]"
    "now w' \<le> max (now exampleWorld) (latestTimeToTry ?t + TRY_TO_SCROLL_INTERVAL_MS (runtimeConfig ?e))"
    "latestTimeToTry ?t < now w'"
    by auto
  with spec [OF loop, of 0]
  have "runEventLoop ?e k (tryToScrollTo ?e exampleWorld ?t) = Some w' \<and>
     scrollCalls w' = [(0, 5000)] \<and> 300 < now w' \<and> now w' \<le> 350"
    by (simp add: w d)
  then have "\<exists>k w'. runEventLoop ?e k (tryToScrollTo ?e exampleWorld ?t) = Some w' \<and>
     scrollCalls w' = [(0, 5000)] \<and> 300 < now w' \<and> now w' \<le> 350"
    by auto
  with w(1) pos show ?thesis unfolding task by simp
qed

section \<open>Properties of the lifecycle coordinator\<close>

lemma falsy_lookupProp: "\<not> truthy v \<Longrightarrow> lookupProp v k = JUndefined"
  by (cases v) (simp_all add: lookupProp_def)

lemma Number_isFinite_iff: "Number_isFinite v \<longleftrightarrow> (\<exists>r. v = JNum r)"
  by (cases v) simp_all

lemma onPageFinish_restore:
  assumes "truthy state" and "lookupProp state ''__scrollX'' = JNum a"
    and "lookupProp state ''__scrollY'' = JNum b"
    and "state = js_or (poppedState w) (historyState w)"
  shows "onPageFinish e w =
     w\<lparr>poppedState := JNull,
       timers := timers w @ [Timer (nextTimerId w) (now w) (Begin state)],
       nextTimerId := Suc (nextTimerId w)\<rparr>"
  using assms by (simp add: onPageFinish_def Let_def setTimeout_def)

lemma onPageFinish_origin:
  assumes "\<not> (truthy state \<and> Number_isFinite (lookupProp state ''__scrollX'') \<and>
      Number_isFinite (lookupProp state ''__scrollY''))"
    and "state = js_or (poppedState w) (historyState w)"
  shows "onPageFinish e w = w\<lparr>poppedState := JNull, scrollCalls := scrollCalls w @ [(0, 0)]\<rparr>"
  using assms by (auto simp add: onPageFinish_def Let_def window_scrollTo_def)

lemma originalReplaceState_fields [simp]:
  "timers (snd (originalReplaceState e w s a)) = timers w"
  "timeoutHandle (snd (originalReplaceState e w s a)) = timeoutHandle w"
  "nextTimerId (snd (originalReplaceState e w s a)) = nextTimerId w"
  "poppedState (snd (originalReplaceState e w s a)) = poppedState w"
  "scrollCalls (snd (originalReplaceState e w s a)) = scrollCalls w"
  "now (snd (originalReplaceState e w s a)) = now w"
  by (simp_all add: originalReplaceState_def Let_def split: option.splits)

lemma originalPushState_fields [simp]:
  "timers (snd (originalPushState e w a)) = timers w"
  "timeoutHandle (snd (originalPushState e w a)) = timeoutHandle w"
  "nextTimerId (snd (originalPushState e w a)) = nextTimerId w"
  "poppedState (snd (originalPushState e w a)) = poppedState w"
  "scrollCalls (snd (originalPushState e w a)) = scrollCalls w"
  "now (snd (originalPushState e w a)) = now w"
  by (simp_all add: originalPushState_def Let_def split: option.splits)

lemma replaceState_fields [simp]:
  "timers (snd (replaceState e w s a)) = timers w"
  "timeoutHandle (snd (replaceState e w s a)) = timeoutHandle w"
  "nextTimerId (snd (replaceState e w s a)) = nextTimerId w"
  "poppedState (snd (replaceState e w s a)) = poppedState w"
  "scrollCalls (snd (replaceState e w s a)) = scrollCalls w"
  "now (snd (replaceState e w s a)) = now w"
  by (simp_all add: replaceState_def split: sum.splits)

lemma pushState_fields [simp]:
  "timers (snd (pushState e w a)) = timers w"
  "timeoutHandle (snd (pushState e w a)) = timeoutHandle w"
  "nextTimerId (snd (pushState e w a)) = nextTimerId w"
  "poppedState (snd (pushState e w a)) = poppedState w"
  "scrollCalls (snd (pushState e w a)) = scrollCalls w"
  "now (snd (pushState e w a)) = now w"
proof -
  obtain r w1 where rw: "replaceState e w (historyState w) [JStr []] = (r, w1)"
    by (cases "replaceState e w (historyState w) [JStr []]")
  then have w1: "w1 = snd (replaceState e w (historyState w) [JStr []])" by simp
  show "timers (snd (pushState e w a)) = timers w"
    "timeoutHandle (snd (pushState e w a)) = timeoutHandle w"
    "nextTimerId (snd (pushState e w a)) = nextTimerId w"
    "poppedState (snd (pushState e w a)) = poppedState w"
    "scrollCalls (snd (pushState e w a)) = scrollCalls w"
    "now (snd (pushState e w a)) = now w"
    by (cases r; simp add: pushState_def rw; simp add: w1)+
qed

lemma tryToScrollTo_fields [simp]:
  "poppedState (tryToScrollTo e w t) = poppedState w"
  "isMounted (tryToScrollTo e w t) = isMounted w"
  "historyState (tryToScrollTo e w t) = historyState w"
  "nativeCalls (tryToScrollTo e w t) = nativeCalls w"
  by (cases "ready e (effectiveScrollBarWidth e w) t (now w)";
      simp add: tryToScrollTo_ready tryToScrollTo_not_ready)+

lemma fire_poppedState [simp]: "poppedState (fire e w tm) = poppedState w"
  by (cases "job tm") (simp_all add: fire_def)

text \<open>
  \<open>poppedState\<close> is either \<open>null\<close> or a state that passed the check of \<open>onPopState\<close>.
\<close>

lemma reachable_poppedState:
  "reachable e w \<Longrightarrow>
   poppedState w = JNull \<or>
   (truthy (poppedState w) \<and> Number_isFinite (lookupProp (poppedState w) ''__scrollX'') \<and>
    Number_isFinite (lookupProp (poppedState w) ''__scrollY''))"
proof (induction rule: reachable.induct)
  case (r_init w)
  then show ?case by (simp add: initial_def)
next
  case (r_pageFinish w)
  show ?case by (simp add: onPageFinish_def Let_def setTimeout_def window_scrollTo_def)
next
  case (r_popState w st)
  then show ?case by (simp add: onPopState_def)
qed (simp_all add: onAppMounted_def onBeforeUnload_def)

lemma reachable_backWorld: "reachable e (backWorld e)"
proof -
  have "reachable e exampleWorld"
    by (rule r_init) (simp add: initial_def exampleWorld_def)
  then have "reachable e (onAppMounted exampleWorld)" by (rule r_mounted)
  then have "reachable e ((onAppMounted exampleWorld)\<lparr>scrollX := 99, scrollY := 99\<rparr>)"
    by (rule r_viewport)
  then have "reachable e (onPopState ((onAppMounted exampleWorld)\<lparr>scrollX := 99, scrollY := 99\<rparr>
                      \<lparr>historyState := position 10 20\<rparr>) (position 10 20))"
    by (rule r_popState)
  then show ?thesis unfolding backWorld_def by (rule r_replaceState)
qed

lemma backWorld_fields:
  "poppedState (backWorld e) = position 10 20"
  "timers (backWorld e) = []"
  "nextTimerId (backWorld e) = 1"
  "now (backWorld e) = 0"
  "scrollCalls (backWorld e) = []"
  by (simp_all add: backWorld_def onPopState_def position_def lookupProp_def onAppMounted_def
      exampleWorld_def)

lemma backWorld_historyState:
  "lookupProp (historyState (backWorld (exampleEnv shortDocument None))) ''__scrollX'' = JNum 99"
  "lookupProp (historyState (backWorld (exampleEnv shortDocument None))) ''__scrollY'' = JNum 99"
  by (simp_all add: backWorld_def onPopState_def position_def lookupProp_def onAppMounted_def
      exampleWorld_def replaceState_def Object_assign_def originalReplaceState_def Let_def
      exampleEnv_def)

text \<open>
  Claim C5. When \<open>poppedState\<close> is set, \<open>onPageFinish\<close> takes the restoration target from
  it, whatever the current history entry holds, and clears it: the deferred start it
  schedules captured the popped state, and runs \<open>tryToScrollTo\<close> on the popped
  coordinates. With the popped state \<open>{__scrollX: 10, __scrollY: 20}\<close> and the current
  entry \<open>{__scrollX: 99, __scrollY: 99}\<close> the target is \<open>(10, 20)\<close>.
\<close>

theorem onPageFinish_prefers_poppedState:
  assumes "reachable e w" and "poppedState w \<noteq> JNull"
  shows "\<exists>a b. lookupProp (poppedState w) ''__scrollX'' = JNum a \<and>
               lookupProp (poppedState w) ''__scrollY'' = JNum b \<and>
               poppedState (onPageFinish e w) = JNull \<and>
               scrollCalls (onPageFinish e w) = scrollCalls w \<and>
               timers (onPageFinish e w) =
                 timers w @ [Timer (nextTimerId w) (now w) (Begin (poppedState w))] \<and>
               runTask e w' (Begin (poppedState w)) =
                 tryToScrollTo e w'
                   \<lparr>x = a, y = b,
                    latestTimeToTry = now w' + SCROLL_RESTORATION_TIMEOUT_MS (runtimeConfig e)\<rparr>"
proof -
  from reachable_poppedState [OF assms(1)] assms(2)
  have t: "truthy (poppedState w)"
    and "Number_isFinite (lookupProp (poppedState w) ''__scrollX'')"
    and "Number_isFinite (lookupProp (poppedState w) ''__scrollY'')"
    by simp_all
  then obtain a b where ab: "lookupProp (poppedState w) ''__scrollX'' = JNum a"
    "lookupProp (poppedState w) ''__scrollY'' = JNum b"
    by (auto simp add: Number_isFinite_iff)
  have "onPageFinish e w =
     w\<lparr>poppedState := JNull,
       timers := timers w @ [Timer (nextTimerId w) (now w) (Begin (poppedState w))],
       nextTimerId := Suc (nextTimerId w)\<rparr>"
    using t ab by (intro onPageFinish_restore) (simp_all add: js_or_def)
  with ab show ?thesis by (simp add: beginTarget_def)
qed

theorem onPageFinish_prefers_poppedState_witness:
  "reachable (exampleEnv shortDocument None) (backWorld (exampleEnv shortDocument None)) \<and>
   poppedState (backWorld (exampleEnv shortDocument None)) \<noteq> JNull \<and>
   lookupProp (poppedState (backWorld (exampleEnv shortDocument None))) ''__scrollX'' = JNum 10 \<and>
   lookupProp (poppedState (backWorld (exampleEnv shortDocument None))) ''__scrollY'' = JNum 20 \<and>
   lookupProp (historyState (backWorld (exampleEnv shortDocument None))) ''__scrollX'' = JNum 99 \<and>
   lookupProp (historyState (backWorld (exampleEnv shortDocument None))) ''__scrollY'' = JNum 99 \<and>
   poppedState (onPageFinish (exampleEnv shortDocument None) (backWorld (exampleEnv shortDocument None))) = JNull \<and>
   timers (onPageFinish (exampleEnv shortDocument None) (backWorld (exampleEnv shortDocument None))) =
     [Timer 1 0 (Begin (position 10 20))] \<and>
   runTask (exampleEnv shortDocument None) exampleWorld (Begin (position 10 20)) =
     tryToScrollTo (exampleEnv shortDocument None) exampleWorld
       \<lparr>x = 10, y = 20, latestTimeToTry = 3000\<rparr>"
proof -
  let ?e = "exampleEnv shortDocument None"
  have ne: "poppedState (backWorld ?e) \<noteq> JNull"
    by (simp add: backWorld_fields position_def)
  have lk: "lookupProp (position 10 20) ''__scrollX'' = JNum 10"
    "lookupProp (position 10 20) ''__scrollY'' = JNum 20"
    by (simp_all add: position_def lookupProp_def)
  have tmo: "now exampleWorld + SCROLL_RESTORATION_TIMEOUT_MS (runtimeConfig ?e) = 3000"
    by (simp add: exampleWorld_def SCROLL_RESTORATION_TIMEOUT_MS_def or_number_def config_def
        exampleEnv_def)
  from onPageFinish_prefers_poppedState [OF reachable_backWorld ne, of exampleWorld]
  obtain a b where
    "lookupProp (poppedState (backWorld ?e)) ''__scrollX'' = JNum a"
    "lookupProp (poppedState (backWorld ?e)) ''__scrollY'' = JNum b"
    "poppedState (onPageFinish ?e (backWorld ?e)) = JNull"
    "timers (onPageFinish ?e (backWorld ?e)) =
       timers (backWorld ?e) @
         [Timer (nextTimerId (backWorld ?e)) (now (backWorld ?e)) (Begin (poppedState (backWorld ?e)))]"
    "runTask ?e exampleWorld (Begin (poppedState (backWorld ?e))) =
       tryToScrollTo ?e exampleWorld
         \<lparr>x = a, y = b,
          latestTimeToTry = now exampleWorld + SCROLL_RESTORATION_TIMEOUT_MS (runtimeConfig ?e)\<rparr>"
    by blast
  then show ?thesis
    using reachable_backWorld [of ?e] ne
    by (simp add: backWorld_fields backWorld_historyState lk tmo)
qed

text \<open>
  Claim C6. When the resolved state is absent or does not hold finite numbers in both
  \<open>__scrollX\<close> and \<open>__scrollY\<close>, \<open>onPageFinish\<close> schedules nothing (the timer queue
  and the retry handle are untouched) and calls \<open>scrollTo(0, 0)\<close> within the handler, at
  the same instant.
\<close>

theorem onPageFinish_without_position_scrolls_to_origin:
  assumes "\<not> (\<exists>a b. lookupProp (js_or (poppedState w) (historyState w)) ''__scrollX'' = JNum a \<and>
                    lookupProp (js_or (poppedState w) (historyState w)) ''__scrollY'' = JNum b)"
  shows "timers (onPageFinish e w) = timers w \<and>
         timeoutHandle (onPageFinish e w) = timeoutHandle w \<and>
         now (onPageFinish e w) = now w \<and>
         scrollCalls (onPageFinish e w) = scrollCalls w @ [(0, 0)]"
proof -
  let ?state = "js_or (poppedState w) (historyState w)"
  from assms have "\<not> (truthy ?state \<and> Number_isFinite (lookupProp ?state ''__scrollX'') \<and>
      Number_isFinite (lookupProp ?state ''__scrollY''))"
    by (auto simp add: Number_isFinite_iff)
  then have "onPageFinish e w = w\<lparr>poppedState := JNull, scrollCalls := scrollCalls w @ [(0, 0)]\<rparr>"
    by (rule onPageFinish_origin) simp
  then show ?thesis by simp
qed

theorem onPageFinish_without_position_scrolls_to_origin_witness:
  "lookupProp (js_or (poppedState visitedWorld) (historyState visitedWorld)) ''__scrollX'' = JUndefined \<and>
   timers (onPageFinish (exampleEnv shortDocument None) visitedWorld) = [] \<and>
   now (onPageFinish (exampleEnv shortDocument None) visitedWorld) = now visitedWorld \<and>
   scrollCalls (onPageFinish (exampleEnv shortDocument None) visitedWorld) = [(0, 0)]"
proof -
  have u: "lookupProp (js_or (poppedState visitedWorld) (historyState visitedWorld)) ''__scrollX'' =
      JUndefined"
    by (simp add: visitedWorld_def exampleWorld_def js_or_def lookupProp_def)
  then have "\<not> (\<exists>a b. lookupProp (js_or (poppedState visitedWorld) (historyState visitedWorld)) ''__scrollX'' = JNum a \<and>
                    lookupProp (js_or (poppedState visitedWorld) (historyState visitedWorld)) ''__scrollY'' = JNum b)"
    by simp
  from onPageFinish_without_position_scrolls_to_origin [OF this, of "exampleEnv shortDocument None"] u
  show ?thesis by (simp add: visitedWorld_def exampleWorld_def)
qed

section \<open>At most one attempt is active\<close>

lemma pendingPolls_clearTimeout:
  assumes "singleAttempt w"
  shows "pendingPolls (clearTimeout w (timeoutHandle w)) = []"
proof (cases "timeoutHandle w")
  case None
  with assms have "set (pendingPolls w) = {}" by (auto simp add: singleAttempt_def)
  then show ?thesis using None by (simp add: pendingPolls_def clearTimeout_def)
next
  case (Some i)
  with assms have "\<forall>tm \<in> set (timers w). isPoll (job tm) \<longrightarrow> timerId tm = i"
    by (auto simp add: singleAttempt_def pendingPolls_def)
  then show ?thesis using Some
    by (auto simp add: pendingPolls_def clearTimeout_def filter_empty_conv)
qed

lemma timers_clearTimeout_subset: "set (timers (clearTimeout w h)) \<subseteq> set (timers w)"
  by (auto simp add: clearTimeout_timers split: option.splits)

lemma pendingPolls_append:
  "timers w' = timers w @ ts \<Longrightarrow>
   pendingPolls w' = pendingPolls w @ filter (\<lambda>tm. isPoll (job tm)) ts"
  by (simp add: pendingPolls_def)

lemma tryToScrollTo_supersedes:
  assumes "singleAttempt w"
  shows "singleAttempt (tryToScrollTo e w t) \<and>
         nextTimerId w \<le> nextTimerId (tryToScrollTo e w t) \<and>
         set (timers (tryToScrollTo e w t)) \<subseteq>
           set (timers w) \<union> {tm. nextTimerId w \<le> timerId tm} \<and>
         (\<forall>p \<in> set (pendingPolls (tryToScrollTo e w t)). nextTimerId w \<le> timerId p \<and> job p = Poll t) \<and>
         (scrollCalls (tryToScrollTo e w t) = scrollCalls w \<or>
          scrollCalls (tryToScrollTo e w t) = scrollCalls w @ [(x t, y t)] \<and>
          pendingPolls (tryToScrollTo e w t) = [])"
proof -
  let ?c = "clearTimeout w (timeoutHandle w)"
  have pc: "pendingPolls ?c = []" using assms by (rule pendingPolls_clearTimeout)
  have sub: "set (timers ?c) \<subseteq> set (timers w)" by (rule timers_clearTimeout_subset)
  have ids: "\<forall>tm \<in> set (timers ?c). timerId tm < nextTimerId w"
    using assms sub by (auto simp add: singleAttempt_def)
  show ?thesis
  proof (cases "ready e (effectiveScrollBarWidth e w) t (now w)")
    case True
    have eq: "tryToScrollTo e w t =
      ?c\<lparr>scrollBarWidth := effectiveScrollBarWidth e w, scrollCalls := scrollCalls w @ [(x t, y t)]\<rparr>"
      using True by (rule tryToScrollTo_ready)
    have pp: "pendingPolls (tryToScrollTo e w t) = []"
      using pc unfolding eq by (simp add: pendingPolls_def)
    have tt: "timers (tryToScrollTo e w t) = timers ?c" unfolding eq by simp
    have nn: "nextTimerId (tryToScrollTo e w t) = nextTimerId w" unfolding eq by simp
    have sc: "scrollCalls (tryToScrollTo e w t) = scrollCalls w @ [(x t, y t)]" unfolding eq by simp
    show ?thesis using ids sub by (auto simp add: singleAttempt_def pp tt nn sc)
  next
    case False
    let ?new = "Timer (nextTimerId w) (now w + pollDelay e) (Poll t)"
    have eq: "tryToScrollTo e w t =
      ?c\<lparr>scrollBarWidth := effectiveScrollBarWidth e w,
         timers := timers ?c @ [?new],
         nextTimerId := Suc (nextTimerId w),
         timeoutHandle := Some (nextTimerId w)\<rparr>"
      using False by (rule tryToScrollTo_not_ready)
    have tt: "timers (tryToScrollTo e w t) = timers ?c @ [?new]" unfolding eq by simp
    have pp: "pendingPolls (tryToScrollTo e w t) = [?new]"
      using pendingPolls_append [OF tt] pc by simp
    have nn: "nextTimerId (tryToScrollTo e w t) = Suc (nextTimerId w)" unfolding eq by simp
    have hh: "timeoutHandle (tryToScrollTo e w t) = Some (nextTimerId w)" unfolding eq by simp
    have sc: "scrollCalls (tryToScrollTo e w t) = scrollCalls w" unfolding eq by simp
    show ?thesis using ids sub by (auto simp add: singleAttempt_def pp tt nn hh sc)
  qed
qed

lemma length_filter_remove1: "length (filter P (remove1 a xs)) \<le> length (filter P xs)"
  by (induction xs) auto

lemma singleAttempt_dequeue:
  assumes "singleAttempt w"
  shows "singleAttempt (w\<lparr>timers := remove1 tm (timers w), now := n\<rparr>)"
proof -
  have "length (filter (\<lambda>tm. isPoll (job tm)) (remove1 tm (timers w)))
      \<le> length (filter (\<lambda>tm. isPoll (job tm)) (timers w))"
    by (rule length_filter_remove1)
  moreover have "set (remove1 tm (timers w)) \<subseteq> set (timers w)" by (rule set_remove1_subset)
  ultimately show ?thesis using assms
    by (auto simp add: singleAttempt_def pendingPolls_def)
qed

lemma singleAttempt_fire:
  assumes "singleAttempt w"
  shows "singleAttempt (fire e w tm)"
proof -
  have "singleAttempt (w\<lparr>timers := remove1 tm (timers w), now := max (now w) (due tm)\<rparr>)"
    using assms by (rule singleAttempt_dequeue)
  then show ?thesis
    by (cases "job tm") (simp_all add: fire_def tryToScrollTo_supersedes)
qed

lemma singleAttempt_onPageFinish:
  assumes "singleAttempt w"
  shows "singleAttempt (onPageFinish e w)"
  using assms
  by (auto simp add: onPageFinish_def Let_def setTimeout_def window_scrollTo_def
      singleAttempt_def pendingPolls_def)

text \<open>Every reachable state keeps the scheduler's discipline.\<close>

lemma reachable_singleAttempt: "reachable e w \<Longrightarrow> singleAttempt w"
proof (induction rule: reachable.induct)
  case (r_init w)
  then show ?case by (simp add: initial_def singleAttempt_def pendingPolls_def)
next
  case (r_pageFinish w)
  then show ?case by (simp add: singleAttempt_onPageFinish)
next
  case (r_fire w tm)
  then show ?case by (simp add: singleAttempt_fire)
qed (simp_all add: singleAttempt_def pendingPolls_def onAppMounted_def onPopState_def
       onBeforeUnload_def)

lemma attemptInProgress_begin:
  assumes "singleAttempt w"
  shows "attemptInProgress (nextTimerId w) (scrollCalls w) t (tryToScrollTo e w t)"
  using tryToScrollTo_supersedes [OF assms, of e t]
  unfolding attemptInProgress_def by blast

lemma attemptInProgress_fire:
  assumes inv: "attemptInProgress n0 c0 t w'" and tm: "tm \<in> set (pendingPolls w')"
  shows "attemptInProgress n0 c0 t (fire e w' tm)"
proof -
  from inv have sa: "singleAttempt w'" and n0: "n0 \<le> nextTimerId w'"
    and polls: "\<forall>p \<in> set (pendingPolls w'). n0 \<le> timerId p \<and> job p = Poll t"
    and calls: "scrollCalls w' = c0 \<or> scrollCalls w' = c0 @ [(x t, y t)] \<and> pendingPolls w' = []"
    unfolding attemptInProgress_def by blast+
  from tm polls have jt: "job tm = Poll t" by blast
  from tm calls have c: "scrollCalls w' = c0" by auto
  let ?w = "w'\<lparr>timers := remove1 tm (timers w'), now := max (now w') (due tm)\<rparr>"
  have f: "fire e w' tm = tryToScrollTo e ?w t" by (simp add: fire_def jt)
  have "singleAttempt ?w" using sa by (rule singleAttempt_dequeue)
  then have "attemptInProgress (nextTimerId ?w) (scrollCalls ?w) t (tryToScrollTo e ?w t)"
    by (rule attemptInProgress_begin)
  then have b: "attemptInProgress (nextTimerId w') c0 t (tryToScrollTo e ?w t)"
    using c by simp
  show ?thesis
    unfolding f attemptInProgress_def
  proof (intro conjI)
    from b show "singleAttempt (tryToScrollTo e ?w t)"
      unfolding attemptInProgress_def by blast
    from b have "nextTimerId w' \<le> nextTimerId (tryToScrollTo e ?w t)"
      unfolding attemptInProgress_def by blast
    with n0 show "n0 \<le> nextTimerId (tryToScrollTo e ?w t)" by linarith
    from b have "\<forall>p \<in> set (pendingPolls (tryToScrollTo e ?w t)).
        nextTimerId w' \<le> timerId p \<and> job p = Poll t"
      unfolding attemptInProgress_def by blast
    with n0 show "\<forall>p \<in> set (pendingPolls (tryToScrollTo e ?w t)).
        n0 \<le> timerId p \<and> job p = Poll t"
      using order_trans by blast
    from b show "scrollCalls (tryToScrollTo e ?w t) = c0 \<or>
        scrollCalls (tryToScrollTo e ?w t) = c0 @ [(x t, y t)] \<and>
        pendingPolls (tryToScrollTo e ?w t) = []"
      unfolding attemptInProgress_def by blast
  qed
qed

lemma attemptInProgress_frame:
  assumes "attemptInProgress n0 c0 t w"
    and "timers w' = timers w" and "timeoutHandle w' = timeoutHandle w"
    and "nextTimerId w' = nextTimerId w" and "scrollCalls w' = scrollCalls w"
  shows "attemptInProgress n0 c0 t w'"
  using assms by (simp add: attemptInProgress_def singleAttempt_def pendingPolls_def)

lemma pollRun_invariant:
  "pollRun e w1 w2 \<Longrightarrow> attemptInProgress n0 c0 t w1 \<Longrightarrow> attemptInProgress n0 c0 t w2"
proof (induction rule: pollRun.induct)
  case p_refl
  then show ?case .
next
  case (p_fire w' tm)
  from p_fire.IH [OF p_fire.prems] p_fire.hyps(2) show ?case
    by (rule attemptInProgress_fire)
next
  case (p_tick w' dt)
  from p_tick.IH [OF p_tick.prems] show ?case
    by (rule attemptInProgress_frame) simp_all
next
  case (p_mounted w')
  from p_mounted.IH [OF p_mounted.prems] show ?case
    by (rule attemptInProgress_frame) (simp_all add: onAppMounted_def)
next
  case (p_popState w' st)
  from p_popState.IH [OF p_popState.prems] show ?case
    by (rule attemptInProgress_frame) (simp_all add: onPopState_def)
next
  case (p_beforeUnload w')
  from p_beforeUnload.IH [OF p_beforeUnload.prems] show ?case
    by (rule attemptInProgress_frame) (simp_all add: onBeforeUnload_def)
next
  case (p_replaceState w' st args)
  from p_replaceState.IH [OF p_replaceState.prems] show ?case
    by (rule attemptInProgress_frame) simp_all
next
  case (p_pushState w' args)
  from p_pushState.IH [OF p_pushState.prems] show ?case
    by (rule attemptInProgress_frame) simp_all
next
  case (p_viewport w' a b)
  from p_viewport.IH [OF p_viewport.prems] show ?case
    by (rule attemptInProgress_frame) simp_all
qed

lemma position_lookup [simp]:
  "lookupProp (position a b) ''__scrollX'' = JNum a"
  "lookupProp (position a b) ''__scrollY'' = JNum b"
  "truthy (position a b)"
  by (simp_all add: position_def lookupProp_def)

lemma firstAttempt_start:
  "onPageFinish e (exampleWorld\<lparr>historyState := position 0 5000\<rparr>) =
     exampleWorld\<lparr>historyState := position 0 5000,
       timers := [Timer 1 0 (Begin (position 0 5000))], nextTimerId := 2\<rparr>"
  by (simp add: onPageFinish_def js_or_def Let_def setTimeout_def exampleWorld_def)

lemma firstAttemptWorld_eq:
  "firstAttemptWorld (exampleEnv shortDocument None) =
     exampleWorld\<lparr>historyState := position 0 5000,
       timers := [Timer 2 50 (Poll \<lparr>x = 0, y = 5000, latestTimeToTry = 3000\<rparr>)],
       nextTimerId := 3, timeoutHandle := Some 2, scrollBarWidth := 15\<rparr>"
  unfolding firstAttemptWorld_def firstAttempt_start
  by (simp add: fire_def beginTarget_def
      tryToScrollTo_def Let_def clearTimeout_def setTimeout_def getScrollbarWidth_def
      exampleWorld_def exampleEnv_def shortDocument_def plainDocument_def
      documentWidth_def documentHeight_def
      SCROLL_RESTORATION_TIMEOUT_MS_def TRY_TO_SCROLL_INTERVAL_MS_def or_number_def config_def)

lemma secondAttemptWorld_eq:
  "secondAttemptWorld (exampleEnv shortDocument None) =
     exampleWorld\<lparr>historyState := position 0 100,
       timers := [Timer 2 50 (Poll \<lparr>x = 0, y = 5000, latestTimeToTry = 3000\<rparr>),
                  Timer 3 0 (Begin (position 0 100))],
       nextTimerId := 4, timeoutHandle := Some 2, scrollBarWidth := 15\<rparr>"
  unfolding secondAttemptWorld_def firstAttemptWorld_eq
  by (simp add: onPopState_def onPageFinish_def
      js_or_def Let_def setTimeout_def exampleWorld_def)

lemma secondAttempt_fire:
  "fire (exampleEnv shortDocument None) (secondAttemptWorld (exampleEnv shortDocument None))
     (Timer 3 0 (Begin (position 0 100))) =
   exampleWorld\<lparr>historyState := position 0 100, timers := [],
       nextTimerId := 4, timeoutHandle := Some 2, scrollBarWidth := 15,
       scrollCalls := [(0, 100)]\<rparr>"
  unfolding secondAttemptWorld_eq
  by (simp add: fire_def beginTarget_def
      tryToScrollTo_def Let_def clearTimeout_def window_scrollTo_def
      exampleWorld_def exampleEnv_def shortDocument_def plainDocument_def
      documentWidth_def documentHeight_def)

lemma reachable_secondAttemptWorld:
  "reachable (exampleEnv shortDocument None) (secondAttemptWorld (exampleEnv shortDocument None))"
proof -
  let ?e = "exampleEnv shortDocument None"
  have "reachable ?e (exampleWorld\<lparr>historyState := position 0 5000\<rparr>)"
    by (rule r_init) (simp add: initial_def exampleWorld_def)
  then have r1: "reachable ?e (onPageFinish ?e (exampleWorld\<lparr>historyState := position 0 5000\<rparr>))"
    by (rule r_pageFinish)
  have "Timer 1 0 (Begin (position 0 5000)) \<in>
      set (timers (onPageFinish ?e (exampleWorld\<lparr>historyState := position 0 5000\<rparr>)))"
    by (simp add: firstAttempt_start)
  with r1 have "reachable ?e (firstAttemptWorld ?e)"
    unfolding firstAttemptWorld_def by (rule r_fire)
  then have "reachable ?e
      (onPopState ((firstAttemptWorld ?e)\<lparr>historyState := position 0 100\<rparr>) (position 0 100))"
    by (rule r_popState)
  then show ?thesis unfolding secondAttemptWorld_def by (rule r_pageFinish)
qed

text \<open>
  Claim C7. An attempt begins when its deferred start fires and calls \<open>tryToScrollTo\<close>
  (that is where the deadline is computed). In every reachable state at most one retry
  timer is pending. When a new attempt begins, whether or not the deadline of the previous
  one has passed, the pending retry of the previous attempt is cancelled and is never
  pending again; until a further attempt begins, every pending retry is the new
  attempt's (and there is at most one), and the only scroll call made is to the new
  target.
\<close>

theorem new_attempt_supersedes_previous:
  assumes "reachable e w" and "tm \<in> set (timers w)" and "job tm = Begin state"
    and "pollRun e (fire e w tm) w2"
  shows "length (pendingPolls w) \<le> 1 \<and>
         (\<forall>p \<in> set (pendingPolls w). p \<notin> set (timers w2)) \<and>
         (\<forall>p \<in> set (pendingPolls w2).
            job p = Poll (beginTarget e (w\<lparr>now := max (now w) (due tm)\<rparr>) state)) \<and>
         length (pendingPolls w2) \<le> 1 \<and>
         (scrollCalls w2 = scrollCalls w \<or>
          scrollCalls w2 = scrollCalls w @
            [(numberValue (lookupProp state ''__scrollX''), numberValue (lookupProp state ''__scrollY''))])"
proof -
  let ?w = "w\<lparr>timers := remove1 tm (timers w), now := max (now w) (due tm)\<rparr>"
  let ?t = "beginTarget e (w\<lparr>now := max (now w) (due tm)\<rparr>) state"
  have sa: "singleAttempt w" using assms(1) by (rule reachable_singleAttempt)
  then have sa': "singleAttempt ?w" by (rule singleAttempt_dequeue)
  have bt: "beginTarget e ?w state = ?t" by (simp add: beginTarget_def)
  have f: "fire e w tm = tryToScrollTo e ?w ?t"
    by (simp add: fire_def assms(3) bt)
  have "attemptInProgress (nextTimerId ?w) (scrollCalls ?w) ?t (tryToScrollTo e ?w ?t)"
    using sa' by (rule attemptInProgress_begin)
  then have "attemptInProgress (nextTimerId w) (scrollCalls w) ?t (fire e w tm)"
    unfolding f by simp
  with assms(4) have "attemptInProgress (nextTimerId w) (scrollCalls w) ?t w2"
    by (rule pollRun_invariant)
  then have fin: "singleAttempt w2"
    "\<forall>p \<in> set (pendingPolls w2). nextTimerId w \<le> timerId p \<and> job p = Poll ?t"
    "scrollCalls w2 = scrollCalls w \<or>
     scrollCalls w2 = scrollCalls w @ [(x ?t, y ?t)] \<and> pendingPolls w2 = []"
    unfolding attemptInProgress_def by blast+
  have gone: "\<forall>p \<in> set (pendingPolls w). p \<notin> set (timers w2)"
  proof
    fix p assume p: "p \<in> set (pendingPolls w)"
    then have "p \<in> set (timers w)" and poll: "isPoll (job p)"
      by (simp_all add: pendingPolls_def)
    with sa have old: "timerId p < nextTimerId w" by (simp add: singleAttempt_def)
    show "p \<notin> set (timers w2)"
    proof
      assume "p \<in> set (timers w2)"
      with poll have "p \<in> set (pendingPolls w2)" by (simp add: pendingPolls_def)
      with fin(2) have "nextTimerId w \<le> timerId p" by blast
      with old show False by simp
    qed
  qed
  have xy: "x ?t = numberValue (lookupProp state ''__scrollX'')"
    "y ?t = numberValue (lookupProp state ''__scrollY'')"
    by (simp_all add: beginTarget_def)
  have l1: "length (pendingPolls w) \<le> 1" using sa by (simp add: singleAttempt_def)
  have l2: "length (pendingPolls w2) \<le> 1" using fin(1) by (simp add: singleAttempt_def)
  have p2: "\<forall>p \<in> set (pendingPolls w2). job p = Poll ?t" using fin(2) by blast
  have c2: "scrollCalls w2 = scrollCalls w \<or>
      scrollCalls w2 = scrollCalls w @
        [(numberValue (lookupProp state ''__scrollX''), numberValue (lookupProp state ''__scrollY''))]"
    using fin(3) unfolding xy by blast
  from l1 gone p2 l2 c2 show ?thesis by (intro conjI)
qed

theorem new_attempt_supersedes_previous_witness:
  "reachable (exampleEnv shortDocument None) (secondAttemptWorld (exampleEnv shortDocument None)) \<and>
   Timer 3 0 (Begin (position 0 100)) \<in>
     set (timers (secondAttemptWorld (exampleEnv shortDocument None))) \<and>
   pendingPolls (secondAttemptWorld (exampleEnv shortDocument None)) =
     [Timer 2 50 (Poll \<lparr>x = 0, y = 5000, latestTimeToTry = 3000\<rparr>)] \<and>
   Timer 2 50 (Poll \<lparr>x = 0, y = 5000, latestTimeToTry = 3000\<rparr>) \<notin>
     set (timers (fire (exampleEnv shortDocument None)
       (secondAttemptWorld (exampleEnv shortDocument None)) (Timer 3 0 (Begin (position 0 100))))) \<and>
   scrollCalls (fire (exampleEnv shortDocument None)
       (secondAttemptWorld (exampleEnv shortDocument None)) (Timer 3 0 (Begin (position 0 100)))) =
     [(0, 100)]"
proof -
  let ?e = "exampleEnv shortDocument None"
  let ?w = "secondAttemptWorld ?e"
  let ?tm = "Timer 3 0 (Begin (position 0 100))"
  have mem: "?tm \<in> set (timers ?w)" by (simp add: secondAttemptWorld_eq)
  have polls: "pendingPolls ?w = [Timer 2 50 (Poll \<lparr>x = 0, y = 5000, latestTimeToTry = 3000\<rparr>)]"
    by (simp add: pendingPolls_def secondAttemptWorld_eq)
  have run: "pollRun ?e (fire ?e ?w ?tm) (fire ?e ?w ?tm)" by (rule p_refl)
  have job: "job ?tm = Begin (position 0 100)" by simp
  from new_attempt_supersedes_previous [OF reachable_secondAttemptWorld mem job run]
  have "\<forall>p \<in> set (pendingPolls ?w). p \<notin> set (timers (fire ?e ?w ?tm))"
    by (rule conjunct2 [THEN conjunct1])
  then have gone: "Timer 2 50 (Poll \<lparr>x = 0, y = 5000, latestTimeToTry = 3000\<rparr>) \<notin>
      set (timers (fire ?e ?w ?tm))"
    unfolding polls by simp
  have calls: "scrollCalls (fire ?e ?w ?tm) = [(0, 100)]"
    by (simp add: secondAttempt_fire exampleWorld_def)
  from reachable_secondAttemptWorld mem polls gone calls show ?thesis by (intro conjI)
qed

end
